theory Spec2Isabelle
  imports Complex_Main
begin

section \<open>Strings, numbers and the order record\<close>

text \<open>
  A JavaScript string is a sequence of UTF-16 code units, so it is modelled as a list of
  natural numbers; \<open>length\<close>, \<open>substring\<close> and the regular expressions of the source all
  count code units. \<open>str\<close> embeds an ASCII literal. JavaScript numbers are modelled as
  exact rationals: every coordinate of the layout is a sum of small decimal constants and
  of the page size.
\<close>

type_synonym jsstring = "nat list"

definition str :: "string \<Rightarrow> jsstring" where
  "str s = map of_char s"

text \<open>Truthiness of an optional string (\<open>undefined\<close> and \<open>''\<close> are falsy) and the
  \<open>a || b\<close> chain of the source on such values.\<close>

definition truthy :: "jsstring option \<Rightarrow> bool" where
  "truthy v = (case v of None \<Rightarrow> False | Some s \<Rightarrow> s \<noteq> [])"

definition orElse :: "jsstring option \<Rightarrow> jsstring \<Rightarrow> jsstring" where
  "orElse v d = (case v of None \<Rightarrow> d | Some s \<Rightarrow> if s = [] then d else s)"

text \<open>The string of a field that is present (used under a test of its truthiness).\<close>

definition stored :: "jsstring option \<Rightarrow> jsstring" where
  "stored v = (case v of None \<Rightarrow> [] | Some s \<Rightarrow> s)"

text \<open>The white space of JavaScript (\<open>\s\<close> in a regular expression, \<open>trim\<close>).\<close>

definition isWhiteSpace :: "nat \<Rightarrow> bool" where
  "isWhiteSpace c =
     (c \<in> {9, 10, 11, 12, 13, 32, 160, 5760, 8232, 8233, 8239, 8287, 12288, 65279}
      \<or> (8192 \<le> c \<and> c \<le> 8202))"

definition trim :: "jsstring \<Rightarrow> jsstring" where
  "trim s = rev (dropWhile isWhiteSpace (rev (dropWhile isWhiteSpace s)))"

record OrderWithStatus =
  receiptNo :: "jsstring option"
  orderId :: "jsstring option"
  name :: "jsstring option"
  orderDetails :: "jsstring option"
  phoneNumber :: "jsstring option"
  deliveryType :: "jsstring option"
  date :: "jsstring option"
  time :: "jsstring option"
  status :: "jsstring option"
  totalPayment :: "jsstring option"
  totalAmount :: "rat option"
  advancePayment :: "jsstring option"
  balancePayment :: "jsstring option"
  discount :: "jsstring option"
  location :: "jsstring option"
  paymentType :: "jsstring option"
  cookStatus :: "jsstring option"
  address :: "jsstring option"

datatype language = Ar | En

record PDFOptions =
  title :: jsstring
  orders :: "OrderWithStatus list"
  language :: "language option"
  showSummary :: "bool option"
  logoUrl :: "jsstring option"

section \<open>The document library and the environment\<close>

text \<open>
  The PDF library is not part of the repository. A document is modelled by the sequence
  of calls issued on it, in order; the binary format is the library's business. A call
  that throws leaves no entry.
\<close>

datatype orientation = Landscape | Portrait
datatype align = AlignLeft | AlignCenter | AlignRight
datatype fontStyle = Normal | Bold
datatype fontFamily = Amiri | Helvetica
datatype direction = Ltr | Rtl

type_synonym rgb = "nat \<times> nat \<times> nat"

datatype op =
    NewDocument orientation
  | AddFileToVFS jsstring jsstring
  | AddFont jsstring jsstring fontStyle
  | SetFontSize rat
  | SetFont fontFamily fontStyle
  | SetTextColor nat nat nat
  | SetFillColor nat nat nat
  | SetDrawColor nat nat nat
  | SetLineWidth rat
  | Text jsstring rat rat "align option"
  | Line rat rat rat rat
  | RectF rat rat rat rat
  | AddImage jsstring rat rat rat rat
  | AddPage

type_synonym document = "op list"

datatype exn = Error jsstring

record FontAsset =
  font_name :: jsstring
  font_base64 :: jsstring

datatype imageLoad = Loaded jsstring | NoCanvasContext | ToDataURLThrows exn | LoadFailed

datatype jsnumber = NaN | Finite rat | PosInfinity | NegInfinity

text \<open>
  Everything the two generators read from outside the file: the module
  \<open>arabic-fonts\<close> (not among the sources: \<open>containsArabic\<close>,
  \<open>getTextDirection\<close>, \<open>hasArabicFonts\<close>, \<open>getAvailableArabicFont\<close>), the
  library (page size, line splitting with the metrics of the active font), the browser
  (the outcome of loading the header image), the clock and the built-in functions of
  strings and numbers. Font registration, font selection, text drawing, image placement
  and saving throw when the environment says so, on the document as it stands; the other
  calls of the library (sizes, colours, line widths, lines, rectangles, pages, splitting)
  are taken to return. The code is verified for every such environment.
\<close>

record env =
  containsArabic :: "jsstring \<Rightarrow> bool"
  getTextDirection :: "jsstring \<Rightarrow> direction"
  hasArabicFonts :: bool
  getAvailableArabicFont :: "FontAsset option"
  getWidth :: "orientation \<Rightarrow> rat"
  getHeight :: "orientation \<Rightarrow> rat"
  splitTextToSize :: "document \<Rightarrow> jsstring \<Rightarrow> rat \<Rightarrow> jsstring \<times> jsstring list"
  addFileToVFSThrows :: "document \<Rightarrow> jsstring \<Rightarrow> exn option"
  addFontThrows :: "document \<Rightarrow> jsstring \<Rightarrow> exn option"
  setFontThrows :: "document \<Rightarrow> fontFamily \<Rightarrow> fontStyle \<Rightarrow> exn option"
  textThrows :: "document \<Rightarrow> jsstring \<Rightarrow> rat \<Rightarrow> rat \<Rightarrow> align option \<Rightarrow> exn option"
  addImageThrows :: "document \<Rightarrow> jsstring \<Rightarrow> exn option"
  loadImage :: "jsstring \<Rightarrow> imageLoad"
  toLocaleDateString :: jsstring
  toLocaleTimeString :: jsstring
  toUpperCase :: "jsstring \<Rightarrow> jsstring"
  parseFloat :: "jsstring \<Rightarrow> jsnumber"
  numberToString :: "rat \<Rightarrow> jsstring"
  saveThrows :: "document \<Rightarrow> jsstring \<Rightarrow> exn option"

text \<open>\<open>splitTextToSize\<close> returns a non-empty array of lines: its first line and the
  others.\<close>

definition setFont :: "env \<Rightarrow> fontFamily \<Rightarrow> fontStyle \<Rightarrow> document \<Rightarrow> exn + document" where
  "setFont e f s d =
     (case setFontThrows e d f s of Some x \<Rightarrow> Inl x | None \<Rightarrow> Inr (d @ [SetFont f s]))"

definition drawText ::
  "env \<Rightarrow> jsstring \<Rightarrow> rat \<Rightarrow> rat \<Rightarrow> align option \<Rightarrow> document \<Rightarrow> exn + document" where
  "drawText e t x y a d =
     (case textThrows e d t x y a of Some x \<Rightarrow> Inl x | None \<Rightarrow> Inr (d @ [Text t x y a]))"

text \<open>Sequencing of calls that may throw: the first exception ends the run.\<close>

definition andThen :: "exn + 'a \<Rightarrow> ('a \<Rightarrow> exn + 'b) \<Rightarrow> exn + 'b" where
  "andThen r f = (case r of Inl x \<Rightarrow> Inl x | Inr v \<Rightarrow> f v)"

text \<open>\<open>initializeArabicFonts\<close>: registers the embedded font when there is one; every
  failure is caught and logged.\<close>

definition initializeArabicFonts :: "env \<Rightarrow> document \<Rightarrow> document" where
  "initializeArabicFonts e d =
     (if hasArabicFonts e then
        (case getAvailableArabicFont e of
           None \<Rightarrow> d
         | Some arabicFont \<Rightarrow>
             (let fontFileName = font_name arabicFont @ str ''-Regular.ttf'' in
              (case addFileToVFSThrows e d fontFileName of
                 Some x \<Rightarrow> d
               | None \<Rightarrow>
                   (let d1 = d @ [AddFileToVFS fontFileName (font_base64 arabicFont)] in
                    (case addFontThrows e d1 fontFileName of
                       Some x \<Rightarrow> d1
                     | None \<Rightarrow> d1 @ [AddFont fontFileName (font_name arabicFont) Normal])))))
      else d)"

section \<open>The text renderer\<close>

record TextOptions =
  align :: "align option"
  maxWidth :: "rat option"
  fontSize :: "rat option"
  fontStyle :: "fontStyle option"
  color :: "rgb option"

definition noOptions :: TextOptions where
  "noOptions = \<lparr>align = None, maxWidth = None, fontSize = None, fontStyle = None, color = None\<rparr>"

text \<open>The alignment handed to the library for Arabic text (lines 219-224 and 708-713).\<close>

definition adjustedAlign :: "direction \<Rightarrow> align \<Rightarrow> align" where
  "adjustedAlign textDirection al =
     (if textDirection = Rtl then
        (if al = AlignLeft then AlignRight
         else if al = AlignRight then AlignLeft
         else al)
      else al)"

text \<open>The shift of the anchor for right-to-left text with a maximal width (lines
  226-234, report only); \<open>if (maxWidth)\<close> is false for \<open>undefined\<close> and for 0.\<close>

definition adjustedX :: "direction \<Rightarrow> rat option \<Rightarrow> align \<Rightarrow> rat \<Rightarrow> rat" where
  "adjustedX textDirection mw adjAlign x =
     (case mw of
        None \<Rightarrow> x
      | Some w \<Rightarrow>
          if textDirection = Rtl \<and> w \<noteq> 0 then
            (if adjAlign = AlignRight then x + w
             else if adjAlign = AlignLeft then x + w
             else x)
          else x)"

text \<open>The text that is drawn (lines 238-245, repeated at 260-267, 717-724 and 732-739):
  with a maximal width, the first line of the split text, followed by three full stops
  when the split gave more than one line.\<close>

definition finalText :: "env \<Rightarrow> document \<Rightarrow> jsstring \<Rightarrow> rat option \<Rightarrow> jsstring" where
  "finalText e d t mw =
     (case mw of
        None \<Rightarrow> t
      | Some w \<Rightarrow>
          if w = 0 then t
          else
            (case splitTextToSize e d t w of
               (first, others) \<Rightarrow>
                 if length (first # others) > 1 then first @ str ''...'' else first))"

definition setTextColor :: "rgb \<Rightarrow> document \<Rightarrow> document" where
  "setTextColor c d = (case c of (r, g, b) \<Rightarrow> d @ [SetTextColor r g b])"

definition setFillColor :: "rgb \<Rightarrow> document \<Rightarrow> document" where
  "setFillColor c d = (case c of (r, g, b) \<Rightarrow> d @ [SetFillColor r g b])"

definition setDrawColor :: "rgb \<Rightarrow> document \<Rightarrow> document" where
  "setDrawColor c d = (case c of (r, g, b) \<Rightarrow> d @ [SetDrawColor r g b])"

text \<open>The handler of the outer \<open>try\<close> of both renderers (lines 278-284 and 743-749): it
  runs on the document as the failed call left it, and what it throws leaves the renderer.\<close>

definition fontFailed ::
  "env \<Rightarrow> jsstring \<Rightarrow> rat \<Rightarrow> rat \<Rightarrow> fontStyle \<Rightarrow> rgb \<Rightarrow> document \<Rightarrow> exn + document" where
  "fontFailed e t x y sty col d =
     andThen (setFont e Helvetica sty d) (\<lambda>d1. drawText e t x y None (setTextColor col d1))"

text \<open>A call guarded by a \<open>try\<close>: \<open>Inl d\<close> is an exception raised on document \<open>d\<close>.\<close>

definition guarded :: "document \<Rightarrow> exn + document \<Rightarrow> document + document" where
  "guarded d r = (case r of Inl x \<Rightarrow> Inl d | Inr d' \<Rightarrow> Inr d')"


section \<open>The report: \<open>generateOrdersPDF\<close>\<close>

record PDFConfig =
  pageWidth :: rat
  pageHeight :: rat
  margin :: rat
  colors_primary :: rgb
  colors_secondary :: rgb
  colors_text :: rgb
  colors_border :: rgb
  colors_headerBg :: rgb
  colors_alternateRow :: rgb
  fonts_title :: rat
  fonts_header :: rat
  fonts_body :: rat
  fonts_small :: rat

definition config :: "env \<Rightarrow> PDFConfig" where
  "config e =
     \<lparr>pageWidth = getWidth e Landscape, pageHeight = getHeight e Landscape, margin = 15,
      colors_primary = (37, 99, 235), colors_secondary = (100, 116, 139),
      colors_text = (30, 41, 59), colors_border = (226, 232, 240),
      colors_headerBg = (248, 250, 252), colors_alternateRow = (249, 250, 251),
      fonts_title = 20, fonts_header = 14, fonts_body = 10, fonts_small = 8\<rparr>"

datatype textKey =
    T_title | T_generatedOn | T_noOrders | T_receiptNo | T_customer | T_orderDetails
  | T_phoneNumber | T_deliveryType | T_date | T_time

text \<open>\<open>getEnglishText\<close>: the fixed texts of the report. The title is the Arabic
  text of the source, U+0637 U+0644 U+0628 U+0627 U+062A, a space, U+0627 U+0644 U+064A
  U+0648 U+0645.\<close>

fun getEnglishText :: "textKey \<Rightarrow> jsstring" where
  "getEnglishText T_title = [1591, 1604, 1576, 1575, 1578, 32, 1575, 1604, 1610, 1608, 1605]"
| "getEnglishText T_generatedOn = str ''Generated on''"
| "getEnglishText T_noOrders = str ''No orders to display''"
| "getEnglishText T_receiptNo = str ''Receipt No''"
| "getEnglishText T_customer = str ''Customer''"
| "getEnglishText T_orderDetails = str ''Order Details''"
| "getEnglishText T_phoneNumber = str ''Phone Number''"
| "getEnglishText T_deliveryType = str ''Delivery Type''"
| "getEnglishText T_date = str ''Date''"
| "getEnglishText T_time = str ''Time''"

record ReportState =
  currentY :: rat
  currentPageNumber :: nat
  doc :: document

definition checkAndAddPage :: "PDFConfig \<Rightarrow> rat \<Rightarrow> ReportState \<Rightarrow> bool \<times> ReportState" where
  "checkAndAddPage cfg requiredHeight st =
     (if currentY st + requiredHeight > pageHeight cfg - margin cfg - 10 then
        (True, st\<lparr>doc := doc st @ [AddPage], currentY := margin cfg,
                  currentPageNumber := currentPageNumber st + 1\<rparr>)
      else (False, st))"

text \<open>The inner \<open>try\<close> blocks. Lines 212-217 and 702-706: the Arabic font, or Helvetica
  when selecting it throws. Lines 247-254 and 269-276 (report only): the draw with its
  alignment, or without options when that throws. What the handlers themselves throw
  reaches the outer handler.\<close>

definition selectArabicFont :: "env \<Rightarrow> fontStyle \<Rightarrow> document \<Rightarrow> document + document" where
  "selectArabicFont e sty d0 =
     (case setFont e Amiri sty d0 of
        Inr d1 \<Rightarrow> Inr d1
      | Inl err \<Rightarrow> guarded d0 (setFont e Helvetica sty d0))"

definition drawOrRetry ::
  "env \<Rightarrow> jsstring \<Rightarrow> rat \<Rightarrow> rat \<Rightarrow> align \<Rightarrow> document \<Rightarrow> document + document" where
  "drawOrRetry e ft x y al d2 =
     (case drawText e ft x y (Some al) d2 of
        Inr d3 \<Rightarrow> Inr d3
      | Inl err \<Rightarrow> guarded d2 (drawText e ft x y None d2))"

text \<open>The body of the outer \<open>try\<close> of the report's \<open>addText\<close> (lines 210-277).\<close>

definition addTextTry ::
  "env \<Rightarrow> jsstring \<Rightarrow> rat \<Rightarrow> rat \<Rightarrow> align \<Rightarrow> rat option \<Rightarrow> fontStyle \<Rightarrow> rgb \<Rightarrow> document
     \<Rightarrow> document + document" where
  "addTextTry e t x y al mw sty col d0 =
     (let isArabic = containsArabic e t; textDirection = getTextDirection e t in
      if isArabic then
        (case selectArabicFont e sty d0 of
           Inl dt \<Rightarrow> Inl dt
         | Inr d1 \<Rightarrow>
             (let adjAlign = adjustedAlign textDirection al;
                  adjX = adjustedX textDirection mw adjAlign x;
                  d2 = setTextColor col d1;
                  ft = finalText e d2 t mw
              in drawOrRetry e ft adjX y adjAlign d2))
      else
        (case guarded d0 (setFont e Helvetica sty d0) of
           Inl dt \<Rightarrow> Inl dt
         | Inr d1 \<Rightarrow>
             (let d2 = setTextColor col d1;
                  ft = finalText e d2 t mw
              in drawOrRetry e ft x y al d2)))"

definition addText ::
  "env \<Rightarrow> PDFConfig \<Rightarrow> jsstring \<Rightarrow> rat \<Rightarrow> rat \<Rightarrow> TextOptions \<Rightarrow> document
     \<Rightarrow> exn + (rat \<times> document)" where
  "addText e cfg t x y options d =
     (let al = (case align options of None \<Rightarrow> AlignCenter | Some a \<Rightarrow> a);
          mw = maxWidth options;
          fs = (case fontSize options of None \<Rightarrow> fonts_body cfg | Some s \<Rightarrow> s);
          sty = (case fontStyle options of None \<Rightarrow> Normal | Some s \<Rightarrow> s);
          col = (case color options of None \<Rightarrow> colors_text cfg | Some c \<Rightarrow> c);
          d0 = d @ [SetFontSize fs]
      in andThen
           (case addTextTry e t x y al mw sty col d0 of
              Inr d' \<Rightarrow> Inr d'
            | Inl dt \<Rightarrow> fontFailed e t x y sty col dt)
           (\<lambda>d'. Inr (fs * (35 / 100), d')))"

text \<open>\<open>addHeader\<close> (lines 289-319).\<close>

definition addHeader :: "env \<Rightarrow> PDFConfig \<Rightarrow> ReportState \<Rightarrow> exn + ReportState" where
  "addHeader e cfg st =
     andThen
       (addText e cfg (getEnglishText T_title) (pageWidth cfg / 2) (currentY st)
          \<lparr>align = Some AlignCenter, maxWidth = None, fontSize = Some (fonts_title cfg),
           fontStyle = Some Bold, color = Some (colors_primary cfg)\<rparr> (doc st))
       (\<lambda>(h1, d1).
          let y1 = currentY st + 15;
              dateTimeStr = toLocaleDateString e @ str '' '' @ toLocaleTimeString e;
              generatedText = getEnglishText T_generatedOn @ str '': '' @ dateTimeStr
          in andThen
               (addText e cfg generatedText (pageWidth cfg / 2) y1
                  \<lparr>align = Some AlignCenter, maxWidth = None, fontSize = Some (fonts_small cfg),
                   fontStyle = None, color = Some (colors_secondary cfg)\<rparr> d1)
               (\<lambda>(h2, d2).
                  let y2 = y1 + 10;
                      d3 = setDrawColor (colors_border cfg) d2
                             @ [SetLineWidth (5 / 10),
                                Line (margin cfg) y2 (pageWidth cfg - margin cfg) y2]
                  in Inr (st\<lparr>currentY := y2 + 10, doc := d3\<rparr>)))"

subsection \<open>The table\<close>

datatype dataKey =
    K_receiptNo | K_orderId | K_name | K_orderDetails | K_phoneNumber | K_deliveryType
  | K_date | K_time | K_status | K_totalPayment | K_totalAmount | K_advancePayment
  | K_balancePayment | K_discount | K_location | K_paymentType | K_cookStatus | K_address

record TableColumn =
  header :: jsstring
  dataKey :: dataKey
  width :: rat
  col_align :: "align option"

datatype jsvalue = Undefined | StringValue jsstring | NumberValue rat

definition ofString :: "jsstring option \<Rightarrow> jsvalue" where
  "ofString v = (case v of None \<Rightarrow> Undefined | Some s \<Rightarrow> StringValue s)"

text \<open>\<open>order[col.dataKey]\<close>.\<close>

fun field :: "dataKey \<Rightarrow> OrderWithStatus \<Rightarrow> jsvalue" where
  "field K_receiptNo order = ofString (receiptNo order)"
| "field K_orderId order = ofString (orderId order)"
| "field K_name order = ofString (name order)"
| "field K_orderDetails order = ofString (orderDetails order)"
| "field K_phoneNumber order = ofString (phoneNumber order)"
| "field K_deliveryType order = ofString (deliveryType order)"
| "field K_date order = ofString (date order)"
| "field K_time order = ofString (time order)"
| "field K_status order = ofString (status order)"
| "field K_totalPayment order = ofString (totalPayment order)"
| "field K_totalAmount order =
     (case totalAmount order of None \<Rightarrow> Undefined | Some n \<Rightarrow> NumberValue n)"
| "field K_advancePayment order = ofString (advancePayment order)"
| "field K_balancePayment order = ofString (balancePayment order)"
| "field K_discount order = ofString (discount order)"
| "field K_location order = ofString (location order)"
| "field K_paymentType order = ofString (paymentType order)"
| "field K_cookStatus order = ofString (cookStatus order)"
| "field K_address order = ofString (address order)"

definition columns :: "TableColumn list" where
  "columns =
     [\<lparr>header = str ''Receipt No'', dataKey = K_receiptNo, width = 28, col_align = None\<rparr>,
      \<lparr>header = str ''Customer'', dataKey = K_name, width = 32, col_align = None\<rparr>,
      \<lparr>header = str ''Order Details'', dataKey = K_orderDetails, width = 45, col_align = None\<rparr>,
      \<lparr>header = str ''Phone Number'', dataKey = K_phoneNumber, width = 30, col_align = None\<rparr>,
      \<lparr>header = str ''Delivery Type'', dataKey = K_deliveryType, width = 30, col_align = None\<rparr>,
      \<lparr>header = str ''Date'', dataKey = K_date, width = 28, col_align = None\<rparr>,
      \<lparr>header = str ''Time'', dataKey = K_time, width = 25, col_align = None\<rparr>]"

definition rowHeight :: rat where "rowHeight = 8"
definition headerHeight :: rat where "headerHeight = 10"

definition tableWidth :: rat where
  "tableWidth = foldl (\<lambda>sum col. sum + width col) 0 columns"

text \<open>The value of a cell (lines 410-420): \<open>(value || 'N/A').toString()\<close>, with the
  receipt number falling back to the order identifier first.\<close>

definition isString :: "jsvalue \<Rightarrow> bool" where
  "isString v = (case v of StringValue s \<Rightarrow> True | _ \<Rightarrow> False)"

text \<open>\<open>(value || d).toString()\<close>: \<open>undefined\<close>, the empty string and 0 are falsy.\<close>

definition valueOr :: "env \<Rightarrow> jsvalue \<Rightarrow> jsstring \<Rightarrow> jsstring" where
  "valueOr e v d =
     (case v of
        Undefined \<Rightarrow> d
      | StringValue s \<Rightarrow> if s = [] then d else s
      | NumberValue n \<Rightarrow> if n = 0 then d else numberToString e n)"

definition cellData :: "env \<Rightarrow> dataKey \<Rightarrow> OrderWithStatus \<Rightarrow> jsstring" where
  "cellData e k order =
     (let v = field k order in
      if k = K_totalPayment \<and> isString v then (case v of StringValue s \<Rightarrow> s | _ \<Rightarrow> [])
      else if k = K_receiptNo then
        orElse (receiptNo order) (orElse (orderId order) (str ''N/A''))
      else valueOr e v (str ''N/A''))"

text \<open>Lines 422-425.\<close>

definition truncateCell :: "jsstring \<Rightarrow> jsstring" where
  "truncateCell cell = (if length cell > 30 then take 27 cell @ str ''...'' else cell)"

text \<open>Lines 427-428: every code unit outside 0x20-0x7E and 0x0600-0x06FF is replaced by a
  space, and the result is trimmed.\<close>

definition displayable :: "nat \<Rightarrow> bool" where
  "displayable c = ((32 \<le> c \<and> c \<le> 126) \<or> (1536 \<le> c \<and> c \<le> 1791))"

definition cleanCell :: "jsstring \<Rightarrow> jsstring" where
  "cleanCell cell = trim (map (\<lambda>c. if displayable c then c else 32) cell)"

definition cellText :: "env \<Rightarrow> TableColumn \<Rightarrow> OrderWithStatus \<Rightarrow> jsstring" where
  "cellText e col order = cleanCell (truncateCell (cellData e (dataKey col) order))"

text \<open>\<open>drawTableHeader\<close> (lines 349-388); the first function is its \<open>forEach\<close>.\<close>

fun drawHeaderCells ::
  "env \<Rightarrow> PDFConfig \<Rightarrow> rat \<Rightarrow> TableColumn list \<Rightarrow> rat \<Rightarrow> document \<Rightarrow> exn + (rat \<times> document)" where
  "drawHeaderCells e cfg startY [] x d = Inr (x, d)"
| "drawHeaderCells e cfg startY (col # cols) x d =
     andThen
       (addText e cfg (header col) (x + width col / 2) (startY + 4)
          \<lparr>align = Some AlignCenter, maxWidth = Some (width col - 4),
           fontSize = Some (fonts_body cfg), fontStyle = Some Bold,
           color = Some (colors_text cfg)\<rparr>
          (d @ [Line x (startY - 2) x (startY + headerHeight - 2)]))
       (\<lambda>(h, d'). drawHeaderCells e cfg startY cols (x + width col) d')"

definition drawTableHeader ::
  "env \<Rightarrow> PDFConfig \<Rightarrow> rat \<Rightarrow> document \<Rightarrow> exn + (rat \<times> document)" where
  "drawTableHeader e cfg startY d =
     (let tableStartX = margin cfg;
          d1 = setFillColor (colors_headerBg cfg) d
                 @ [RectF tableStartX (startY - 2) tableWidth headerHeight];
          d2 = setDrawColor (colors_border cfg) d1 @ [SetLineWidth (3 / 10)]
      in andThen (drawHeaderCells e cfg startY columns tableStartX d2)
           (\<lambda>(x, d3).
              Inr (startY + headerHeight,
                   d3 @ [Line x (startY - 2) x (startY + headerHeight - 2),
                         Line tableStartX (startY - 2) x (startY - 2),
                         Line tableStartX (startY + headerHeight - 2) x
                           (startY + headerHeight - 2)])))"

text \<open>\<open>drawTableRow\<close> (lines 390-449); the first function is its \<open>forEach\<close>.\<close>

fun drawRowCells ::
  "env \<Rightarrow> PDFConfig \<Rightarrow> OrderWithStatus \<Rightarrow> rat \<Rightarrow> TableColumn list \<Rightarrow> rat \<Rightarrow> document
     \<Rightarrow> exn + (rat \<times> document)" where
  "drawRowCells e cfg order startY [] x d = Inr (x, d)"
| "drawRowCells e cfg order startY (col # cols) x d =
     (let textX = (case col_align col of
                     Some AlignCenter \<Rightarrow> x + width col / 2
                   | Some AlignRight \<Rightarrow> x + width col - 2
                   | _ \<Rightarrow> x + 2)
      in andThen
           (addText e cfg (cellText e col order) textX (startY + 3)
              \<lparr>align = Some (case col_align col of None \<Rightarrow> AlignLeft | Some a \<Rightarrow> a),
               maxWidth = Some (width col - 4), fontSize = Some (fonts_body cfg - 1),
               fontStyle = None, color = Some (colors_text cfg)\<rparr>
              (d @ [Line x (startY - 2) x (startY + rowHeight - 2)]))
           (\<lambda>(h, d'). drawRowCells e cfg order startY cols (x + width col) d'))"

definition drawTableRow ::
  "env \<Rightarrow> PDFConfig \<Rightarrow> OrderWithStatus \<Rightarrow> rat \<Rightarrow> bool \<Rightarrow> document \<Rightarrow> exn + (rat \<times> document)" where
  "drawTableRow e cfg order startY isAlternate d =
     (let tableStartX = margin cfg;
          d1 = (if isAlternate then
                  setFillColor (colors_alternateRow cfg) d
                    @ [RectF tableStartX (startY - 2) tableWidth rowHeight]
                else d);
          d2 = setDrawColor (colors_border cfg) d1 @ [SetLineWidth (1 / 10)]
      in andThen (drawRowCells e cfg order startY columns tableStartX d2)
           (\<lambda>(x, d3).
              Inr (startY + rowHeight,
                   d3 @ [Line x (startY - 2) x (startY + rowHeight - 2),
                         Line tableStartX (startY + rowHeight - 2) x
                           (startY + rowHeight - 2)])))"

text \<open>The loop over the orders (lines 462-470), with the row index and the local
  \<open>tableY\<close>. The page check reads \<open>currentY\<close> of the state, which the loop does not
  advance.\<close>

fun drawRows ::
  "env \<Rightarrow> PDFConfig \<Rightarrow> OrderWithStatus list \<Rightarrow> nat \<Rightarrow> rat \<Rightarrow> ReportState
     \<Rightarrow> exn + (rat \<times> ReportState)" where
  "drawRows e cfg [] index tableY st = Inr (tableY, st)"
| "drawRows e cfg (order # rest) index tableY st =
     (case checkAndAddPage cfg (rowHeight + 5) st of
        (added, st1) \<Rightarrow>
          andThen
            (if added then drawTableHeader e cfg (currentY st1) (doc st1)
             else Inr (tableY, doc st1))
            (\<lambda>(tableY1, d1).
               andThen (drawTableRow e cfg order tableY1 (index mod 2 = 1) d1)
                 (\<lambda>(tableY2, d2).
                    drawRows e cfg rest (index + 1) tableY2 (st1\<lparr>doc := d2\<rparr>))))"

text \<open>\<open>addOrdersTable\<close> (lines 321-473).\<close>

definition addOrdersTable ::
  "env \<Rightarrow> PDFConfig \<Rightarrow> OrderWithStatus list \<Rightarrow> ReportState \<Rightarrow> exn + ReportState" where
  "addOrdersTable e cfg os st =
     (if length os = 0 then
        andThen
          (addText e cfg (getEnglishText T_noOrders) (pageWidth cfg / 2) (currentY st + 20)
             \<lparr>align = Some AlignCenter, maxWidth = None, fontSize = Some (fonts_header cfg),
              fontStyle = None, color = Some (colors_secondary cfg)\<rparr> (doc st))
          (\<lambda>(h, d'). Inr (st\<lparr>doc := d'\<rparr>))
      else
        (case checkAndAddPage cfg (headerHeight + rowHeight * 3) st of
           (added, st1) \<Rightarrow>
             (let tableY = (if added then currentY st1 else currentY st) in
              andThen (drawTableHeader e cfg tableY (doc st1))
                (\<lambda>(tableY1, d1).
                   andThen (drawRows e cfg os 0 tableY1 (st1\<lparr>doc := d1\<rparr>))
                     (\<lambda>(tableY2, st2). Inr (st2\<lparr>currentY := tableY2 + 10\<rparr>))))))"

text \<open>\<open>generateOrdersPDF\<close> (lines 76-589). The title, the language, the summary flag
  and the logo of the options are not read; \<open>addSummary\<close> and \<open>addFooter\<close> are defined
  in the source and never called, and are left out here.\<close>

definition generateOrdersPDF :: "env \<Rightarrow> PDFOptions \<Rightarrow> exn + document" where
  "generateOrdersPDF e options =
     (let d0 = initializeArabicFonts e [NewDocument Landscape];
          cfg = config e;
          st0 = \<lparr>currentY = margin cfg, currentPageNumber = 1, doc = d0\<rparr>
      in andThen (addHeader e cfg st0)
           (\<lambda>st1. andThen (addOrdersTable e cfg (orders options) st1)
              (\<lambda>st2. Inr (doc st2))))"


section \<open>The receipt: \<open>generateOrderReceiptPDF\<close>\<close>

text \<open>The body of the outer \<open>try\<close> of the receipt's \<open>addText\<close> (lines 700-742): the
  anchor is never shifted, and a draw that throws goes to the outer handler at once.\<close>

definition addTextTry_receipt ::
  "env \<Rightarrow> jsstring \<Rightarrow> rat \<Rightarrow> rat \<Rightarrow> align \<Rightarrow> rat option \<Rightarrow> fontStyle \<Rightarrow> rgb \<Rightarrow> document
     \<Rightarrow> document + document" where
  "addTextTry_receipt e t x y al mw sty col d0 =
     (let isArabic = containsArabic e t; textDirection = getTextDirection e t in
      if isArabic then
        (case selectArabicFont e sty d0 of
           Inl dt \<Rightarrow> Inl dt
         | Inr d1 \<Rightarrow>
             (let adjAlign = adjustedAlign textDirection al;
                  d2 = setTextColor col d1;
                  ft = finalText e d2 t mw
              in guarded d2 (drawText e ft x y (Some adjAlign) d2)))
      else
        (case guarded d0 (setFont e Helvetica sty d0) of
           Inl dt \<Rightarrow> Inl dt
         | Inr d1 \<Rightarrow>
             (let d2 = setTextColor col d1;
                  ft = finalText e d2 t mw
              in guarded d2 (drawText e ft x y (Some al) d2))))"

definition addText_receipt ::
  "env \<Rightarrow> jsstring \<Rightarrow> rat \<Rightarrow> rat \<Rightarrow> TextOptions \<Rightarrow> document \<Rightarrow> exn + (rat \<times> document)" where
  "addText_receipt e t x y options d =
     (let al = (case align options of None \<Rightarrow> AlignLeft | Some a \<Rightarrow> a);
          mw = maxWidth options;
          fs = (case fontSize options of None \<Rightarrow> 12 | Some s \<Rightarrow> s);
          sty = (case fontStyle options of None \<Rightarrow> Normal | Some s \<Rightarrow> s);
          col = (case color options of None \<Rightarrow> (0, 0, 0) | Some c \<Rightarrow> c);
          d0 = d @ [SetFontSize fs]
      in andThen
           (case addTextTry_receipt e t x y al mw sty col d0 of
              Inr d' \<Rightarrow> Inr d'
            | Inl dt \<Rightarrow> fontFailed e t x y sty col dt)
           (\<lambda>d'. Inr (fs * (35 / 100), d')))"

text \<open>\<open>convertImageToBase64\<close> (lines 908-935): the promise resolves with the data URL
  or rejects, the browser firing one of the two events of the image.\<close>

definition convertImageToBase64 :: "env \<Rightarrow> jsstring \<Rightarrow> exn + jsstring" where
  "convertImageToBase64 e imagePath =
     (case loadImage e imagePath of
        Loaded dataURL \<Rightarrow> Inr dataURL
      | NoCanvasContext \<Rightarrow> Inl (Error (str ''Failed to get canvas context''))
      | ToDataURLThrows x \<Rightarrow> Inl x
      | LoadFailed \<Rightarrow> Inl (Error (str ''Failed to load image'')))"

definition addImage ::
  "env \<Rightarrow> jsstring \<Rightarrow> rat \<Rightarrow> rat \<Rightarrow> rat \<Rightarrow> rat \<Rightarrow> document \<Rightarrow> exn + document" where
  "addImage e img x y w h d =
     (case addImageThrows e d img of
        Some err \<Rightarrow> Inl err
      | None \<Rightarrow> Inr (d @ [AddImage img x y w h]))"

text \<open>The sections of the receipt take the cursor \<open>currentY\<close> and the document and
  return both. Lines 754-781: the header image, or the text title when the \<open>try\<close>
  block throws.\<close>

definition headerImage ::
  "env \<Rightarrow> rat \<Rightarrow> rat \<Rightarrow> rat \<Rightarrow> document \<Rightarrow> exn + (rat \<times> document)" where
  "headerImage e pgWidth mrg y d =
     (case andThen (convertImageToBase64 e (str ''/assets/images/invoice header.png''))
             (\<lambda>base64Image.
                let imgWidth = pgWidth - 2 * mrg; imgHeight = 35; imgX = mrg; imgY = y
                in andThen (addImage e base64Image imgX imgY imgWidth imgHeight d)
                     (\<lambda>d'. Inr (y + imgHeight + 15, d'))) of
        Inr r \<Rightarrow> Inr r
      | Inl err \<Rightarrow>
          andThen
            (addText_receipt e (str ''RECEIPT'') (pgWidth / 2) y
               \<lparr>align = Some AlignCenter, maxWidth = None, fontSize = Some 20,
                fontStyle = Some Bold, color = None\<rparr> d)
            (\<lambda>(h, d'). Inr (y + 15, d')))"

text \<open>Lines 783-801: receipt number, date and time.\<close>

definition receiptNumberAndDate ::
  "env \<Rightarrow> OrderWithStatus \<Rightarrow> rat \<Rightarrow> rat \<Rightarrow> rat \<Rightarrow> document \<Rightarrow> exn + (rat \<times> document)" where
  "receiptNumberAndDate e order pgWidth mrg y d =
     (let leftColX = mrg; rightColX = pgWidth / 2;
          d1 = d @ [SetFillColor 248 250 252, RectF mrg (y - 5) (pgWidth - 2 * mrg) 25]
      in andThen
           (addText_receipt e
              (str ''Receipt No: ''
                 @ orElse (receiptNo order) (orElse (orderId order) (str ''N/A'')))
              leftColX y (noOptions\<lparr>fontSize := Some 12, fontStyle := Some Bold\<rparr>) d1)
           (\<lambda>(h1, d2).
              andThen
                (addText_receipt e (str ''Date: '' @ orElse (date order) (str ''N/A''))
                   rightColX y noOptions d2)
                (\<lambda>(h2, d3).
                   andThen
                     (addText_receipt e (str ''Time: '' @ orElse (time order) (str ''N/A''))
                        rightColX (y + 8) noOptions d3)
                     (\<lambda>(h3, d4). Inr (y + 8 + 15, d4)))))"

definition sectionTitle :: TextOptions where
  "sectionTitle = noOptions\<lparr>fontSize := Some 14, fontStyle := Some Bold,
                             color := Some (37, 99, 235)\<rparr>"

text \<open>Lines 803-826: customer information; address and location only when given.\<close>

definition customerInformation ::
  "env \<Rightarrow> OrderWithStatus \<Rightarrow> rat \<Rightarrow> rat \<Rightarrow> rat \<Rightarrow> document \<Rightarrow> exn + (rat \<times> document)" where
  "customerInformation e order pgWidth mrg y d =
     (let leftColX = mrg; rightColX = pgWidth / 2 in
      andThen (addText_receipt e (str ''Customer Information:'') mrg y sectionTitle d)
        (\<lambda>(h1, d1).
           andThen
             (addText_receipt e (str ''Name: '' @ orElse (name order) (str ''N/A''))
                leftColX (y + 10) noOptions d1)
             (\<lambda>(h2, d2).
                andThen
                  (addText_receipt e
                     (str ''Phone: '' @ orElse (phoneNumber order) (str ''N/A''))
                     rightColX (y + 10) noOptions d2)
                  (\<lambda>(h3, d3).
                     andThen
                       (if truthy (address order) then
                          andThen
                            (addText_receipt e
                               (str ''Address: '' @ stored (address order))
                               leftColX (y + 10 + 8) noOptions d3)
                            (\<lambda>(h4, d4). Inr (y + 10 + 8 + 8, d4))
                        else Inr (y + 10 + 8, d3))
                       (\<lambda>(y4, d4).
                          andThen
                            (if truthy (location order) then
                               andThen
                                 (addText_receipt e
                                    (str ''Location: '' @ stored (location order))
                                    rightColX y4 noOptions d4)
                                 (\<lambda>(h5, d5). Inr (y4 + 8, d5))
                             else Inr (y4, d4))
                            (\<lambda>(y5, d5). Inr (y5 + 12, d5)))))))"

text \<open>Lines 828-839: the order details, drawn with the page width less the margins as
  maximal width.\<close>

definition orderDetailsSection ::
  "env \<Rightarrow> OrderWithStatus \<Rightarrow> rat \<Rightarrow> rat \<Rightarrow> rat \<Rightarrow> document \<Rightarrow> exn + (rat \<times> document)" where
  "orderDetailsSection e order pgWidth mrg y d =
     andThen (addText_receipt e (str ''Order Details:'') mrg y sectionTitle d)
       (\<lambda>(h1, d1).
          andThen
            (addText_receipt e (orElse (orderDetails order) (str ''N/A'')) mrg (y + 10)
               (noOptions\<lparr>maxWidth := Some (pgWidth - 2 * mrg)\<rparr>) d1)
            (\<lambda>(h2, d2). Inr (y + 10 + 15, d2)))"

text \<open>Lines 841-851: delivery information.\<close>

definition deliveryInformation ::
  "env \<Rightarrow> OrderWithStatus \<Rightarrow> rat \<Rightarrow> rat \<Rightarrow> rat \<Rightarrow> document \<Rightarrow> exn + (rat \<times> document)" where
  "deliveryInformation e order pgWidth mrg y d =
     andThen (addText_receipt e (str ''Delivery Information:'') mrg y sectionTitle d)
       (\<lambda>(h1, d1).
          andThen
            (addText_receipt e (str ''Type: '' @ orElse (deliveryType order) (str ''N/A''))
               mrg (y + 10) noOptions d1)
            (\<lambda>(h2, d2). Inr (y + 10 + 15, d2)))"

text \<open>\<open>v && parseFloat(v) > 0\<close>; a comparison with NaN is false.\<close>

definition positiveAmount :: "env \<Rightarrow> jsstring option \<Rightarrow> bool" where
  "positiveAmount e v =
     (case v of
        None \<Rightarrow> False
      | Some s \<Rightarrow>
          s \<noteq> [] \<and>
          (case parseFloat e s of
             Finite n \<Rightarrow> n > 0
           | PosInfinity \<Rightarrow> True
           | _ \<Rightarrow> False))"

text \<open>A line of the payment section that is drawn only under a condition, with the
  advance of the cursor by 8.\<close>

definition optionalLine ::
  "env \<Rightarrow> bool \<Rightarrow> jsstring \<Rightarrow> rat \<Rightarrow> rat \<Rightarrow> document \<Rightarrow> exn + (rat \<times> document)" where
  "optionalLine e shown t x y d =
     (if shown then andThen (addText_receipt e t x y noOptions d) (\<lambda>(h, d'). Inr (y + 8, d'))
      else Inr (y, d))"

text \<open>Lines 853-888: payment information.\<close>

definition paymentInformation ::
  "env \<Rightarrow> OrderWithStatus \<Rightarrow> rat \<Rightarrow> rat \<Rightarrow> rat \<Rightarrow> document \<Rightarrow> exn + (rat \<times> document)" where
  "paymentInformation e order pgWidth mrg y d =
     (let leftColX = mrg; rightColX = pgWidth / 2 in
      andThen (addText_receipt e (str ''Payment Information:'') mrg y sectionTitle d)
        (\<lambda>(h1, d1).
           andThen
             (addText_receipt e
                (str ''Total Amount: OMR '' @ orElse (totalPayment order) (str ''0.000''))
                leftColX (y + 10) sectionTitle d1)
             (\<lambda>(h2, d2).
                andThen
                  (if truthy (paymentType order) then
                     andThen
                       (addText_receipt e
                          (str ''Payment Type: ''
                             @ toUpperCase e (stored (paymentType order)))
                          rightColX (y + 10) noOptions d2)
                       (\<lambda>(h3, d3). Inr d3)
                   else Inr d2)
                  (\<lambda>d3.
                     andThen
                       (optionalLine e (positiveAmount e (advancePayment order))
                          (str ''Advance Payment: OMR '' @ stored (advancePayment order))
                          leftColX (y + 10 + 8) d3)
                       (\<lambda>(y4, d4).
                          andThen
                            (optionalLine e (positiveAmount e (balancePayment order))
                               (str ''Balance Payment: OMR ''
                                  @ stored (balancePayment order))
                               rightColX y4 d4)
                            (\<lambda>(y5, d5).
                               andThen
                                 (optionalLine e (positiveAmount e (discount order))
                                    (str ''Discount: OMR '' @ stored (discount order))
                                    leftColX y5 d5)
                                 (\<lambda>(y6, d6). Inr (y6 + 8, d6))))))))"

text \<open>Lines 890-903: the footer, at a fixed place of the page.\<close>

definition receiptFooter ::
  "env \<Rightarrow> rat \<Rightarrow> rat \<Rightarrow> rat \<Rightarrow> document \<Rightarrow> exn + document" where
  "receiptFooter e pgWidth pgHeight mrg d =
     (let footerY = pgHeight - mrg - 20;
          d1 = d @ [SetDrawColor 200 200 200, SetLineWidth (5 / 10),
                    Line mrg (footerY - 15) (pgWidth - mrg) (footerY - 15)]
      in andThen
           (addText_receipt e (str ''Thank you for your order!'') (pgWidth / 2) (footerY - 5)
              (noOptions\<lparr>align := Some AlignCenter, fontSize := Some 10,
                         color := Some (100, 100, 100)\<rparr>) d1)
           (\<lambda>(h, d2). Inr d2))"

text \<open>The sections after the header image, in the order of the source.\<close>

definition receiptBody ::
  "env \<Rightarrow> OrderWithStatus \<Rightarrow> rat \<Rightarrow> rat \<Rightarrow> rat \<Rightarrow> rat \<Rightarrow> document \<Rightarrow> exn + document" where
  "receiptBody e order pgWidth pgHeight mrg y d =
     andThen (receiptNumberAndDate e order pgWidth mrg y d)
       (\<lambda>(y1, d1). andThen (customerInformation e order pgWidth mrg y1 d1)
       (\<lambda>(y2, d2). andThen (orderDetailsSection e order pgWidth mrg y2 d2)
       (\<lambda>(y3, d3). andThen (deliveryInformation e order pgWidth mrg y3 d3)
       (\<lambda>(y4, d4). andThen (paymentInformation e order pgWidth mrg y4 d4)
       (\<lambda>(y5, d5). receiptFooter e pgWidth pgHeight mrg d5)))))"

definition generateOrderReceiptPDF :: "env \<Rightarrow> OrderWithStatus \<Rightarrow> exn + document" where
  "generateOrderReceiptPDF e order =
     (let d0 = initializeArabicFonts e [NewDocument Portrait];
          pgWidth = getWidth e Portrait;
          pgHeight = getHeight e Portrait;
          mrg = 15
      in andThen (headerImage e pgWidth mrg mrg d0)
           (\<lambda>(y, d). receiptBody e order pgWidth pgHeight mrg y d))"

subsection \<open>\<open>downloadOrderReceipt\<close>\<close>

definition isAlphaNumeric :: "nat \<Rightarrow> bool" where
  "isAlphaNumeric c = ((97 \<le> c \<and> c \<le> 122) \<or> (65 \<le> c \<and> c \<le> 90) \<or> (48 \<le> c \<and> c \<le> 57))"

text \<open>\<open>replace(/\s+/g, '-')\<close>: every maximal run of white space becomes one hyphen.\<close>

fun hyphenate :: "bool \<Rightarrow> jsstring \<Rightarrow> jsstring" where
  "hyphenate inRun [] = []"
| "hyphenate inRun (c # cs) =
     (if isWhiteSpace c then (if inRun then hyphenate True cs else 45 # hyphenate True cs)
      else c # hyphenate False cs)"

definition sanitizedName :: "jsstring \<Rightarrow> jsstring" where
  "sanitizedName customerName =
     hyphenate False (filter (\<lambda>c. isAlphaNumeric c \<or> isWhiteSpace c) customerName)"

definition receiptFileName :: "OrderWithStatus \<Rightarrow> jsstring" where
  "receiptFileName order =
     (let receiptNumber = orElse (receiptNo order) (orElse (orderId order) (str ''receipt''));
          customerName = orElse (name order) (str ''customer'')
      in str ''receipt-'' @ receiptNumber @ str ''-'' @ sanitizedName customerName
           @ str ''.pdf'')"

text \<open>\<open>downloadOrderReceipt\<close> (lines 937-956): the name and content of the saved file,
  or the wrapped error.\<close>

definition downloadOrderReceipt :: "env \<Rightarrow> OrderWithStatus \<Rightarrow> exn + (jsstring \<times> document)" where
  "downloadOrderReceipt e order =
     (case andThen (generateOrderReceiptPDF e order)
             (\<lambda>d. let fileName = receiptFileName order in
                  (case saveThrows e d fileName of
                     Some err \<Rightarrow> Inl err
                   | None \<Rightarrow> Inr (fileName, d))) of
        Inr r \<Rightarrow> Inr r
      | Inl (Error message) \<Rightarrow>
          Inl (Error (str ''Failed to generate receipt PDF: '' @ message)))"


section \<open>Reading a document\<close>

text \<open>The texts written to a document, in order; the calls that draw (as opposed to
  those that set a font, a size, a colour or a line width); the number of pages.\<close>

fun textOf :: "op \<Rightarrow> jsstring list" where
  "textOf (Text t x y a) = [t]"
| "textOf other = []"

definition textsOf :: "document \<Rightarrow> jsstring list" where
  "textsOf d = concat (map textOf d)"

fun isDrawing :: "op \<Rightarrow> bool" where
  "isDrawing (Text t x y a) = True"
| "isDrawing (Line x1 y1 x2 y2) = True"
| "isDrawing (RectF x y w h) = True"
| "isDrawing (AddImage i x y w h) = True"
| "isDrawing AddPage = True"
| "isDrawing other = False"

definition drawn :: "document \<Rightarrow> document" where
  "drawn d = filter isDrawing d"

definition pageCount :: "document \<Rightarrow> nat" where
  "pageCount d = 1 + length (filter (\<lambda>c. c = AddPage) d)"

text \<open>A document continued on its current page.\<close>

definition grows :: "document \<Rightarrow> document \<Rightarrow> bool" where
  "grows d d' = (\<exists>ops. d' = d @ ops \<and> AddPage \<notin> set ops)"

text \<open>The document a guarded block leaves, thrown or not.\<close>

definition leaves :: "document + document \<Rightarrow> document" where
  "leaves r = (case r of Inl d \<Rightarrow> d | Inr d \<Rightarrow> d)"

text \<open>An environment whose font selection and text drawing never throw.\<close>

definition reliable :: "env \<Rightarrow> bool" where
  "reliable e =
     ((\<forall>d f s. setFontThrows e d f s = None) \<and> (\<forall>d t x y a. textThrows e d t x y a = None))"

text \<open>The header image of the receipt cannot be placed: loading or encoding fails, or
  the library refuses the image.\<close>

definition imageFails :: "env \<Rightarrow> document \<Rightarrow> bool" where
  "imageFails e d =
     (case loadImage e (str ''/assets/images/invoice header.png'') of
        Loaded img \<Rightarrow> addImageThrows e d img \<noteq> None
      | other \<Rightarrow> True)"

text \<open>What the renderer hands to the library under a reliable environment: the font
  family, the anchor and the alignment of the report and of the receipt.\<close>

definition chosenFont :: "env \<Rightarrow> jsstring \<Rightarrow> fontFamily" where
  "chosenFont e t = (if containsArabic e t then Amiri else Helvetica)"

definition passedAlign :: "env \<Rightarrow> jsstring \<Rightarrow> align \<Rightarrow> align" where
  "passedAlign e t al = (if containsArabic e t then adjustedAlign (getTextDirection e t) al else al)"

definition passedX :: "env \<Rightarrow> jsstring \<Rightarrow> rat option \<Rightarrow> align \<Rightarrow> rat \<Rightarrow> rat" where
  "passedX e t mw al x =
     (if containsArabic e t
      then adjustedX (getTextDirection e t) mw (adjustedAlign (getTextDirection e t) al) x
      else x)"

text \<open>The truth table of the spec's design note \<open>adjustForDirection\<close>: (left, rtl) gives
  right, (right, rtl) gives left, (center, any) gives center, (any, ltr) is unchanged.\<close>

fun adjustForDirection :: "align \<Rightarrow> direction \<Rightarrow> align" where
  "adjustForDirection AlignLeft Rtl = AlignRight"
| "adjustForDirection AlignRight Rtl = AlignLeft"
| "adjustForDirection AlignCenter dir = AlignCenter"
| "adjustForDirection al Ltr = al"

section \<open>A concrete environment\<close>

text \<open>Modelled from the spec: \<open>containsArabic\<close> of the module \<open>arabic-fonts\<close>, which is
  not among the sources. The spec's ScriptDetector: a text is Arabic iff it has a code point
  in U+0600-U+06FF.\<close>

definition containsArabicScript :: "jsstring \<Rightarrow> bool" where
  "containsArabicScript t = list_ex (\<lambda>c. 1536 \<le> c \<and> c \<le> 1791) t"

text \<open>Modelled from the spec: \<open>getTextDirection\<close> of the same module. The spec's
  ScriptDetector: the direction is right-to-left iff the text is Arabic.\<close>

definition textDirection :: "jsstring \<Rightarrow> direction" where
  "textDirection t = (if containsArabicScript t then Rtl else Ltr)"

text \<open>A stand-in for the font metrics of the library: every glyph has the same width, and
  a text is cut into lines of as many glyphs as fit. Line feeds and word boundaries, which
  the library honours, are not treated.\<close>

fun chunk :: "nat \<Rightarrow> jsstring \<Rightarrow> jsstring \<Rightarrow> jsstring list" where
  "chunk n cur [] = [rev cur]"
| "chunk n cur (c # cs) =
     (if length cur < n then chunk n (c # cur) cs else rev cur # chunk n [c] cs)"

definition fixedPitchSplit :: "rat \<Rightarrow> jsstring \<Rightarrow> rat \<Rightarrow> jsstring \<times> jsstring list" where
  "fixedPitchSplit pitch t w =
     (case chunk (nat \<lfloor>w / pitch\<rfloor>) [] t of
        [] \<Rightarrow> ([], [])
      | l # ls \<Rightarrow> (l, ls))"

text \<open>\<open>parseFloat\<close> on decimal literals: leading white space, a sign, \<open>Infinity\<close>, digits
  with an optional fraction and exponent. The value is the exact one, not the nearest
  double, except where rounding decides the comparison with zero or the overflow: a
  magnitude of at most \<open>2^-1075\<close> reads as 0, one of at least \<open>2^1024 - 2^970\<close> as
  Infinity.\<close>

definition isDigit :: "nat \<Rightarrow> bool" where
  "isDigit c = (48 \<le> c \<and> c \<le> 57)"

definition digitsValue :: "jsstring \<Rightarrow> nat" where
  "digitsValue ds = foldl (\<lambda>v c. 10 * v + (c - 48)) 0 ds"

definition exponentOf :: "jsstring \<Rightarrow> int" where
  "exponentOf r =
     (case r of
        [] \<Rightarrow> 0
      | c # r1 \<Rightarrow>
          if c = 101 \<or> c = 69 then
            (case r1 of
               [] \<Rightarrow> 0
             | s # r2 \<Rightarrow>
                 if s = 45 then
                   (if takeWhile isDigit r2 = [] then 0
                    else - int (digitsValue (takeWhile isDigit r2)))
                 else if s = 43 then int (digitsValue (takeWhile isDigit r2))
                 else int (digitsValue (takeWhile isDigit r1)))
          else 0)"

definition parseDecimal :: "jsstring \<Rightarrow> jsnumber" where
  "parseDecimal s =
     (let s1 = dropWhile isWhiteSpace s;
          negative = (case s1 of [] \<Rightarrow> False | c # r \<Rightarrow> c = 45);
          s2 = (case s1 of [] \<Rightarrow> [] | c # r \<Rightarrow> if c = 45 \<or> c = 43 then r else s1);
          whole = takeWhile isDigit s2;
          r1 = dropWhile isDigit s2;
          fraction = (case r1 of [] \<Rightarrow> [] | c # r \<Rightarrow> if c = 46 then takeWhile isDigit r else []);
          r2 = (case r1 of [] \<Rightarrow> [] | c # r \<Rightarrow> if c = 46 then dropWhile isDigit r else r1);
          mantissa = of_nat (digitsValue whole)
                       + of_nat (digitsValue fraction) / 10 ^ length fraction;
          ex = exponentOf r2;
          magnitude = (if ex < 0 then mantissa / 10 ^ nat (- ex) else mantissa * 10 ^ nat ex)
      in if take 8 s2 = str ''Infinity'' then (if negative then NegInfinity else PosInfinity)
         else if whole = [] \<and> fraction = [] then NaN
         else if 2 ^ 1024 - 2 ^ 970 \<le> magnitude
         then (if negative then NegInfinity else PosInfinity)
         else if magnitude \<le> 1 / 2 ^ 1075 then Finite 0
         else Finite (if negative then - magnitude else magnitude))"

text \<open>Decimal digits of a natural number (the first argument bounds the recursion).\<close>

fun showNat :: "nat \<Rightarrow> nat \<Rightarrow> jsstring" where
  "showNat 0 n = []"
| "showNat (Suc k) n = (if n < 10 then [48 + n] else showNat k (n div 10) @ [48 + n mod 10])"

text \<open>The environment of the examples: an A4 page in millimetres, glyphs of a fixed
  width \<open>pitch\<close>, no embedded font, calls that never throw, and a header image that
  loads iff \<open>img\<close> is given. Upper case covers the ASCII letters only and number
  printing the natural numbers only; the theorems on the code take all of these as
  parameters.\<close>

definition testEnv :: "rat \<Rightarrow> jsstring option \<Rightarrow> env" where
  "testEnv pitch img =
     \<lparr>containsArabic = containsArabicScript,
      getTextDirection = textDirection,
      hasArabicFonts = False,
      getAvailableArabicFont = None,
      getWidth = (\<lambda>or. if or = Landscape then 297 else 210),
      getHeight = (\<lambda>or. if or = Landscape then 210 else 297),
      splitTextToSize = (\<lambda>d t w. fixedPitchSplit pitch t w),
      addFileToVFSThrows = (\<lambda>d f. None),
      addFontThrows = (\<lambda>d f. None),
      setFontThrows = (\<lambda>d f s. None),
      textThrows = (\<lambda>d t x y a. None),
      addImageThrows = (\<lambda>d i. None),
      loadImage = (\<lambda>path. case img of None \<Rightarrow> LoadFailed | Some i \<Rightarrow> Loaded i),
      toLocaleDateString = str ''1/15/2024'',
      toLocaleTimeString = str ''10:30:00 AM'',
      toUpperCase = map (\<lambda>c. if 97 \<le> c \<and> c \<le> 122 then c - 32 else c),
      parseFloat = parseDecimal,
      numberToString = (\<lambda>n. showNat (Suc (nat \<lfloor>n\<rfloor>)) (nat \<lfloor>n\<rfloor>)),
      saveThrows = (\<lambda>d f. None)\<rparr>"

text \<open>An order with no field set.\<close>

definition emptyOrder :: OrderWithStatus where
  "emptyOrder =
     \<lparr>receiptNo = None, orderId = None, name = None, orderDetails = None, phoneNumber = None,
      deliveryType = None, date = None, time = None, status = None, totalPayment = None,
      totalAmount = None, advancePayment = None, balancePayment = None, discount = None,
      location = None, paymentType = None, cookStatus = None, address = None\<rparr>"

section \<open>Basic facts\<close>

lemma andThen_Inr [simp]: "andThen (Inr v) f = f v"
  by (simp add: andThen_def)

lemma andThen_Inl [simp]: "andThen (Inl x) f = Inl x"
  by (simp add: andThen_def)

lemma stored_simps [simp]: "stored (Some s) = s" "stored None = []"
  by (simp_all add: stored_def)

lemma setFont_reliable: "reliable e \<Longrightarrow> setFont e f s d = Inr (d @ [SetFont f s])"
  by (simp add: reliable_def setFont_def)

lemma drawText_reliable: "reliable e \<Longrightarrow> drawText e t x y a d = Inr (d @ [Text t x y a])"
  by (simp add: reliable_def drawText_def)

lemma addText_reliable:
  assumes "reliable e"
  shows "addText e cfg t x y options d =
    (let al = (case align options of None \<Rightarrow> AlignCenter | Some a \<Rightarrow> a);
         fs = (case fontSize options of None \<Rightarrow> fonts_body cfg | Some s \<Rightarrow> s);
         sty = (case fontStyle options of None \<Rightarrow> Normal | Some s \<Rightarrow> s);
         col = (case color options of None \<Rightarrow> colors_text cfg | Some c \<Rightarrow> c);
         d2 = setTextColor col (d @ [SetFontSize fs, SetFont (chosenFont e t) sty])
     in Inr (fs * (35 / 100),
             d2 @ [Text (finalText e d2 t (maxWidth options))
                     (passedX e t (maxWidth options) al x) y (Some (passedAlign e t al))]))"
  using assms
  by (simp add: addText_def addTextTry_def selectArabicFont_def drawOrRetry_def
      setFont_reliable drawText_reliable guarded_def
      chosenFont_def passedX_def passedAlign_def Let_def)

lemma addText_receipt_reliable:
  assumes "reliable e"
  shows "addText_receipt e t x y options d =
    (let al = (case align options of None \<Rightarrow> AlignLeft | Some a \<Rightarrow> a);
         fs = (case fontSize options of None \<Rightarrow> 12 | Some s \<Rightarrow> s);
         sty = (case fontStyle options of None \<Rightarrow> Normal | Some s \<Rightarrow> s);
         col = (case color options of None \<Rightarrow> (0, 0, 0) | Some c \<Rightarrow> c);
         d2 = setTextColor col (d @ [SetFontSize fs, SetFont (chosenFont e t) sty])
     in Inr (fs * (35 / 100),
             d2 @ [Text (finalText e d2 t (maxWidth options)) x y (Some (passedAlign e t al))]))"
  using assms
  by (simp add: addText_receipt_def addTextTry_receipt_def selectArabicFont_def
      setFont_reliable drawText_reliable
      guarded_def chosenFont_def passedAlign_def Let_def)

lemma testEnv_reliable: "reliable (testEnv p i)"
  by (simp add: reliable_def testEnv_def)


subsection \<open>Documents that stay on their page\<close>

lemma grows_refl [simp]: "grows d d"
  by (simp add: grows_def)

lemma grows_trans: "grows a b \<Longrightarrow> grows b c \<Longrightarrow> grows a c"
  by (auto simp: grows_def)

lemma grows_snoc: "AddPage \<notin> set ops \<Longrightarrow> grows d (d @ ops)"
  by (auto simp: grows_def)

lemma grows_snoc': "grows a b \<Longrightarrow> AddPage \<notin> set ops \<Longrightarrow> grows a (b @ ops)"
  by (auto simp: grows_def)

lemma grows_pageCount: "grows d d' \<Longrightarrow> pageCount d' = pageCount d"
  by (auto simp: grows_def pageCount_def filter_empty_conv)

lemma andThen_eq_Inr: "andThen r f = Inr v \<longleftrightarrow> (\<exists>u. r = Inr u \<and> f u = Inr v)"
  by (cases r) simp_all

lemma setTextColor_grows [simp]: "grows d (setTextColor c d)"
  by (cases c) (auto simp: setTextColor_def intro!: grows_snoc)

lemma setFillColor_grows [simp]: "grows d (setFillColor c d)"
  by (cases c) (auto simp: setFillColor_def intro!: grows_snoc)

lemma setDrawColor_grows [simp]: "grows d (setDrawColor c d)"
  by (cases c) (auto simp: setDrawColor_def intro!: grows_snoc)

lemma setFont_grows: "setFont e f s d = Inr d' \<Longrightarrow> grows d d'"
  by (auto simp: setFont_def grows_def split: option.splits)

lemma drawText_grows: "drawText e t x y a d = Inr d' \<Longrightarrow> grows d d'"
  by (auto simp: drawText_def grows_def split: option.splits)

lemma fontFailed_grows: "fontFailed e t x y sty col d = Inr d' \<Longrightarrow> grows d d'"
  unfolding fontFailed_def andThen_eq_Inr
  by (blast intro: grows_trans setFont_grows drawText_grows setTextColor_grows)

lemma guarded_setFont_grows: "grows d (leaves (guarded d (setFont e f s d)))"
  by (cases "setFont e f s d") (auto simp: guarded_def leaves_def dest: setFont_grows)

lemma guarded_drawText_grows: "grows d (leaves (guarded d (drawText e t x y a d)))"
  by (cases "drawText e t x y a d") (auto simp: guarded_def leaves_def dest: drawText_grows)

lemma selectArabicFont_grows: "grows d (leaves (selectArabicFont e sty d))"
proof (cases "setFont e Amiri sty d")
  case (Inl x)
  then show ?thesis
    using guarded_setFont_grows [of d e Helvetica sty] by (simp add: selectArabicFont_def)
next
  case (Inr d1)
  then show ?thesis
    by (simp add: selectArabicFont_def leaves_def setFont_grows)
qed

lemma drawOrRetry_grows: "grows d (leaves (drawOrRetry e t x y a d))"
proof (cases "drawText e t x y (Some a) d")
  case (Inl err)
  then show ?thesis
    using guarded_drawText_grows [of d e t x y None] by (simp add: drawOrRetry_def)
next
  case (Inr d1)
  then show ?thesis
    by (simp add: drawOrRetry_def leaves_def drawText_grows)
qed

lemma leaves_simps [simp]: "leaves (Inl d) = d" "leaves (Inr d) = d"
  by (simp_all add: leaves_def)

lemma addTextTry_grows: "grows d (leaves (addTextTry e t x y al mw sty col d))"
proof (cases "containsArabic e t")
  case True
  show ?thesis
  proof (cases "selectArabicFont e sty d")
    case (Inl dt)
    then show ?thesis
      using True selectArabicFont_grows [of d e sty] by (simp add: addTextTry_def)
  next
    case (Inr d1)
    then have "grows d (setTextColor col d1)"
      using selectArabicFont_grows [of d e sty] by (auto intro: grows_trans)
    then show ?thesis
      using True Inr by (auto simp: addTextTry_def Let_def intro: grows_trans drawOrRetry_grows)
  qed
next
  case False
  show ?thesis
  proof (cases "guarded d (setFont e Helvetica sty d)")
    case (Inl dt)
    then show ?thesis
      using False guarded_setFont_grows [of d e Helvetica sty] by (simp add: addTextTry_def)
  next
    case (Inr d1)
    then have "grows d (setTextColor col d1)"
      using guarded_setFont_grows [of d e Helvetica sty] by (auto intro: grows_trans)
    then show ?thesis
      using False Inr by (auto simp: addTextTry_def Let_def intro: grows_trans drawOrRetry_grows)
  qed
qed

lemma addTextTry_receipt_grows: "grows d (leaves (addTextTry_receipt e t x y al mw sty col d))"
proof (cases "containsArabic e t")
  case True
  show ?thesis
  proof (cases "selectArabicFont e sty d")
    case (Inl dt)
    then show ?thesis
      using True selectArabicFont_grows [of d e sty] by (simp add: addTextTry_receipt_def)
  next
    case (Inr d1)
    then have "grows d (setTextColor col d1)"
      using selectArabicFont_grows [of d e sty] by (auto intro: grows_trans)
    then show ?thesis
      using True Inr
      by (auto simp: addTextTry_receipt_def Let_def intro: grows_trans guarded_drawText_grows)
  qed
next
  case False
  show ?thesis
  proof (cases "guarded d (setFont e Helvetica sty d)")
    case (Inl dt)
    then show ?thesis
      using False guarded_setFont_grows [of d e Helvetica sty]
      by (simp add: addTextTry_receipt_def)
  next
    case (Inr d1)
    then have "grows d (setTextColor col d1)"
      using guarded_setFont_grows [of d e Helvetica sty] by (auto intro: grows_trans)
    then show ?thesis
      using False Inr
      by (auto simp: addTextTry_receipt_def Let_def intro: grows_trans guarded_drawText_grows)
  qed
qed

lemma addText_grows:
  assumes "addText e cfg t x y options d = Inr (h, d')"
  shows "grows d d'"
proof -
  let ?fs = "case fontSize options of None \<Rightarrow> fonts_body cfg | Some s \<Rightarrow> s"
  let ?r = "addTextTry e t x y (case align options of None \<Rightarrow> AlignCenter | Some a \<Rightarrow> a)
              (maxWidth options) (case fontStyle options of None \<Rightarrow> Normal | Some s \<Rightarrow> s)
              (case color options of None \<Rightarrow> colors_text cfg | Some c \<Rightarrow> c)
              (d @ [SetFontSize ?fs])"
  have g0: "grows d (d @ [SetFontSize ?fs])"
    by (rule grows_snoc) simp
  have g1: "grows d (leaves ?r)"
    by (rule grows_trans [OF g0 addTextTry_grows])
  show ?thesis
  proof (cases ?r)
    case (Inl dt)
    with assms g1 show ?thesis
      by (auto simp: addText_def Let_def andThen_eq_Inr dest!: fontFailed_grows
          intro: grows_trans)
  next
    case (Inr dr)
    with assms g1 show ?thesis
      by (auto simp: addText_def Let_def andThen_eq_Inr)
  qed
qed

lemma addText_receipt_grows:
  assumes "addText_receipt e t x y options d = Inr (h, d')"
  shows "grows d d'"
proof -
  let ?fs = "case fontSize options of None \<Rightarrow> 12 | Some s \<Rightarrow> s"
  let ?r = "addTextTry_receipt e t x y (case align options of None \<Rightarrow> AlignLeft | Some a \<Rightarrow> a)
              (maxWidth options) (case fontStyle options of None \<Rightarrow> Normal | Some s \<Rightarrow> s)
              (case color options of None \<Rightarrow> (0, 0, 0) | Some c \<Rightarrow> c)
              (d @ [SetFontSize ?fs])"
  have g0: "grows d (d @ [SetFontSize ?fs])"
    by (rule grows_snoc) simp
  have g1: "grows d (leaves ?r)"
    by (rule grows_trans [OF g0 addTextTry_receipt_grows])
  show ?thesis
  proof (cases ?r)
    case (Inl dt)
    with assms g1 show ?thesis
      by (auto simp: addText_receipt_def Let_def andThen_eq_Inr dest!: fontFailed_grows
          intro: grows_trans)
  next
    case (Inr dr)
    with assms g1 show ?thesis
      by (auto simp: addText_receipt_def Let_def andThen_eq_Inr)
  qed
qed


lemma drawHeaderCells_grows:
  "drawHeaderCells e cfg sy cols x d = Inr (x', d') \<Longrightarrow> grows d d'"
proof (induction cols arbitrary: x d)
  case Nil
  then show ?case by simp
next
  case (Cons col cols)
  from Cons.prems obtain h d1 where
    a: "addText e cfg (header col) (x + width col / 2) (sy + 4)
          \<lparr>align = Some AlignCenter, maxWidth = Some (width col - 4),
           fontSize = Some (fonts_body cfg), fontStyle = Some Bold,
           color = Some (colors_text cfg)\<rparr>
          (d @ [Line x (sy - 2) x (sy + headerHeight - 2)]) = Inr (h, d1)"
    and r: "drawHeaderCells e cfg sy cols (x + width col) d1 = Inr (x', d')"
    by (auto simp: andThen_eq_Inr)
  have "grows d (d @ [Line x (sy - 2) x (sy + headerHeight - 2)])"
    by (rule grows_snoc) simp
  with addText_grows [OF a] Cons.IH [OF r] show ?case
    by (blast intro: grows_trans)
qed

lemma drawTableHeader_grows:
  assumes "drawTableHeader e cfg sy d = Inr (y', d')"
  shows "grows d d'"
proof -
  let ?d2 = "setDrawColor (colors_border cfg)
               (setFillColor (colors_headerBg cfg) d
                  @ [RectF (margin cfg) (sy - 2) tableWidth headerHeight])
             @ [SetLineWidth (3 / 10)]"
  have g: "grows d ?d2"
    by (intro grows_snoc' grows_trans [OF _ setDrawColor_grows] setFillColor_grows) simp_all
  from assms obtain x d3 where
    c: "drawHeaderCells e cfg sy columns (margin cfg) ?d2 = Inr (x, d3)"
    and d': "d' = d3 @ [Line x (sy - 2) x (sy + headerHeight - 2),
                       Line (margin cfg) (sy - 2) x (sy - 2),
                       Line (margin cfg) (sy + headerHeight - 2) x (sy + headerHeight - 2)]"
    by (auto simp: drawTableHeader_def Let_def andThen_eq_Inr)
  from g drawHeaderCells_grows [OF c] have "grows d d3"
    by (rule grows_trans)
  then show ?thesis
    unfolding d' by (rule grows_snoc') simp
qed

lemma drawRowCells_grows:
  "drawRowCells e cfg order sy cols x d = Inr (x', d') \<Longrightarrow> grows d d'"
proof (induction cols arbitrary: x d)
  case Nil
  then show ?case by simp
next
  case (Cons col cols)
  from Cons.prems obtain h d1 tx opts where
    a: "addText e cfg (cellText e col order) tx (sy + 3) opts
          (d @ [Line x (sy - 2) x (sy + rowHeight - 2)]) = Inr (h, d1)"
    and r: "drawRowCells e cfg order sy cols (x + width col) d1 = Inr (x', d')"
    by (auto simp: andThen_eq_Inr Let_def)
  have "grows d (d @ [Line x (sy - 2) x (sy + rowHeight - 2)])"
    by (rule grows_snoc) simp
  with addText_grows [OF a] Cons.IH [OF r] show ?case
    by (blast intro: grows_trans)
qed

lemma drawTableRow_grows:
  assumes "drawTableRow e cfg order sy alt d = Inr (y', d')"
  shows "grows d d'"
proof -
  let ?d1 = "if alt then setFillColor (colors_alternateRow cfg) d
                          @ [RectF (margin cfg) (sy - 2) tableWidth rowHeight]
             else d"
  let ?d2 = "setDrawColor (colors_border cfg) ?d1 @ [SetLineWidth (1 / 10)]"
  have "grows d ?d1"
    by (auto intro!: grows_snoc' setFillColor_grows)
  then have g: "grows d ?d2"
    by (intro grows_snoc' grows_trans [OF _ setDrawColor_grows]) simp_all
  from assms obtain x d3 where
    c: "drawRowCells e cfg order sy columns (margin cfg) ?d2 = Inr (x, d3)"
    and d': "d' = d3 @ [Line x (sy - 2) x (sy + rowHeight - 2),
                       Line (margin cfg) (sy + rowHeight - 2) x (sy + rowHeight - 2)]"
    by (auto simp: drawTableRow_def Let_def andThen_eq_Inr)
  from g drawRowCells_grows [OF c] have "grows d d3"
    by (rule grows_trans)
  then show ?thesis
    unfolding d' by (rule grows_snoc') simp
qed

lemma checkAndAddPage_fits:
  "currentY st + r \<le> pageHeight cfg - margin cfg - 10 \<Longrightarrow> checkAndAddPage cfg r st = (False, st)"
  by (simp add: checkAndAddPage_def)

lemma drawRows_grows:
  assumes "currentY st + (rowHeight + 5) \<le> pageHeight cfg - margin cfg - 10"
    and "drawRows e cfg os i ty st = Inr (ty', st')"
  shows "grows (doc st) (doc st') \<and> currentY st' = currentY st"
  using assms
proof (induction os arbitrary: i ty st)
  case Nil
  then show ?case by simp
next
  case (Cons order rest)
  from Cons.prems obtain ty2 d2 where
    row: "drawTableRow e cfg order ty (i mod 2 = 1) (doc st) = Inr (ty2, d2)"
    and r: "drawRows e cfg rest (i + 1) ty2 (st\<lparr>doc := d2\<rparr>) = Inr (ty', st')"
    by (auto simp: checkAndAddPage_fits andThen_eq_Inr)
  from Cons.prems(1) have fits: "currentY (st\<lparr>doc := d2\<rparr>) + (rowHeight + 5)
      \<le> pageHeight cfg - margin cfg - 10"
    by simp
  from Cons.IH [OF fits r] drawTableRow_grows [OF row] show ?case
    by (auto intro: grows_trans)
qed

lemma addOrdersTable_grows:
  assumes "currentY st + (headerHeight + rowHeight * 3) \<le> pageHeight cfg - margin cfg - 10"
    and "addOrdersTable e cfg os st = Inr st'"
  shows "grows (doc st) (doc st')"
proof (cases "os = []")
  case True
  with assms(2) show ?thesis
    by (auto simp: addOrdersTable_def andThen_eq_Inr dest: addText_grows)
next
  case False
  with assms obtain ty1 d1 ty2 st2 where
    h: "drawTableHeader e cfg (currentY st) (doc st) = Inr (ty1, d1)"
    and r: "drawRows e cfg os 0 ty1 (st\<lparr>doc := d1\<rparr>) = Inr (ty2, st2)"
    and s: "st' = st2\<lparr>currentY := ty2 + 10\<rparr>"
    by (auto simp: addOrdersTable_def checkAndAddPage_fits andThen_eq_Inr Let_def)
  from assms(1) have fits: "currentY (st\<lparr>doc := d1\<rparr>) + (rowHeight + 5)
      \<le> pageHeight cfg - margin cfg - 10"
    by (simp add: rowHeight_def headerHeight_def)
  from drawRows_grows [OF fits r] drawTableHeader_grows [OF h] show ?thesis
    unfolding s by (auto intro: grows_trans)
qed

lemma addHeader_grows:
  assumes "addHeader e cfg st = Inr st'"
  shows "grows (doc st) (doc st') \<and> currentY st' = currentY st + 35"
proof -
  from assms obtain h1 d1 h2 d2 o1 o2 y1 t2 where
    a: "addText e cfg (getEnglishText T_title) (pageWidth cfg / 2) (currentY st) o1 (doc st)
          = Inr (h1, d1)"
    and b: "addText e cfg t2 (pageWidth cfg / 2) y1 o2 d1 = Inr (h2, d2)"
    and s: "st' = st\<lparr>currentY := currentY st + 15 + 10 + 10,
                      doc := setDrawColor (colors_border cfg) d2
                        @ [SetLineWidth (5 / 10),
                           Line (margin cfg) (currentY st + 15 + 10)
                             (pageWidth cfg - margin cfg) (currentY st + 15 + 10)]\<rparr>"
    by (auto simp: addHeader_def andThen_eq_Inr Let_def)
  have "grows (doc st) (setDrawColor (colors_border cfg) d2)"
    using addText_grows [OF a] addText_grows [OF b]
    by (blast intro: grows_trans setDrawColor_grows)
  then show ?thesis
    unfolding s by (auto intro: grows_snoc')
qed

lemma initializeArabicFonts_grows: "grows d (initializeArabicFonts e d)"
  by (auto simp: initializeArabicFonts_def Let_def grows_def split: option.splits)

lemma generateOrdersPDF_one_page:
  assumes "109 \<le> getHeight e Landscape"
    and "generateOrdersPDF e options = Inr d"
  shows "pageCount d = 1"
proof -
  let ?d0 = "initializeArabicFonts e [NewDocument Landscape]"
  let ?st0 = "\<lparr>currentY = margin (config e), currentPageNumber = 1, doc = ?d0\<rparr>"
  from assms(2) obtain st1 st2 where
    h: "addHeader e (config e) ?st0 = Inr st1"
    and t: "addOrdersTable e (config e) (orders options) st1 = Inr st2"
    and d: "d = doc st2"
    by (auto simp: generateOrdersPDF_def Let_def andThen_eq_Inr)
  from addHeader_grows [OF h] have g1: "grows ?d0 (doc st1)" and y: "currentY st1 = 50"
    by (simp_all add: config_def)
  from assms(1) y have "currentY st1 + (headerHeight + rowHeight * 3)
      \<le> pageHeight (config e) - margin (config e) - 10"
    by (simp add: config_def headerHeight_def rowHeight_def)
  from addOrdersTable_grows [OF this t] g1 initializeArabicFonts_grows
  have "grows [NewDocument Landscape] d"
    unfolding d by (blast intro: grows_trans)
  then show ?thesis
    by (simp add: grows_pageCount) (simp add: pageCount_def)
qed


subsection \<open>Drawing calls under a reliable environment\<close>

lemma drawn_append [simp]: "drawn (a @ b) = drawn a @ drawn b"
  by (simp add: drawn_def)

lemma drawn_setTextColor [simp]: "drawn (setTextColor c d) = drawn d"
  by (cases c) (simp add: setTextColor_def drawn_def)

lemma drawn_setFillColor [simp]: "drawn (setFillColor c d) = drawn d"
  by (cases c) (simp add: setFillColor_def drawn_def)

lemma drawn_setDrawColor [simp]: "drawn (setDrawColor c d) = drawn d"
  by (cases c) (simp add: setDrawColor_def drawn_def)

lemma drawn_simps [simp]:
  "drawn [] = []"
  "drawn (Text t x y a # d) = Text t x y a # drawn d"
  "drawn (Line x1 y1 x2 y2 # d) = Line x1 y1 x2 y2 # drawn d"
  "drawn (RectF x y w h # d) = RectF x y w h # drawn d"
  "drawn (AddImage i x y w h # d) = AddImage i x y w h # drawn d"
  "drawn (AddPage # d) = AddPage # drawn d"
  "drawn (SetFontSize fs # d) = drawn d"
  "drawn (SetFont f sty # d) = drawn d"
  "drawn (SetTextColor r g b # d) = drawn d"
  "drawn (SetFillColor r g b # d) = drawn d"
  "drawn (SetDrawColor r g b # d) = drawn d"
  "drawn (SetLineWidth lw # d) = drawn d"
  "drawn (NewDocument ori # d) = drawn d"
  "drawn (AddFileToVFS fn b64 # d) = drawn d"
  "drawn (AddFont fn nm sty # d) = drawn d"
  by (simp_all add: drawn_def)

lemma drawn_initializeArabicFonts [simp]: "drawn (initializeArabicFonts e d) = drawn d"
  by (simp add: initializeArabicFonts_def Let_def split: option.splits)

lemma passedAlign_center [simp]: "passedAlign e t AlignCenter = AlignCenter"
  by (simp add: passedAlign_def adjustedAlign_def)

lemma passedX_None [simp]: "passedX e t None al x = x"
  by (simp add: passedX_def adjustedX_def)

lemma finalText_None [simp]: "finalText e d t None = t"
  by (simp add: finalText_def)

lemma addHeader_drawn:
  assumes "reliable e"
  shows "\<exists>st'. addHeader e cfg st = Inr st' \<and> currentY st' = currentY st + 35 \<and>
           drawn (doc st') = drawn (doc st) @
             [Text (getEnglishText T_title) (pageWidth cfg / 2) (currentY st) (Some AlignCenter),
              Text (getEnglishText T_generatedOn @ str '': '' @ toLocaleDateString e
                      @ str '' '' @ toLocaleTimeString e)
                (pageWidth cfg / 2) (currentY st + 15) (Some AlignCenter),
              Line (margin cfg) (currentY st + 25) (pageWidth cfg - margin cfg)
                (currentY st + 25)]"
  using assms by (simp add: addHeader_def addText_reliable Let_def)

lemma addOrdersTable_empty_drawn:
  assumes "reliable e"
  shows "\<exists>st'. addOrdersTable e cfg [] st = Inr st' \<and>
           drawn (doc st') = drawn (doc st) @
             [Text (getEnglishText T_noOrders) (pageWidth cfg / 2) (currentY st + 20)
                (Some AlignCenter)]"
  using assms by (simp add: addOrdersTable_def addText_reliable Let_def)

lemma pageCount_drawn: "pageCount d = 1 + length (filter (\<lambda>c. c = AddPage) (drawn d))"
proof -
  have "filter (\<lambda>c. c = AddPage) (filter isDrawing d) = filter (\<lambda>c. c = AddPage) d"
    by (induction d) auto
  then show ?thesis by (simp add: pageCount_def drawn_def)
qed

lemma textsOf_append [simp]: "textsOf (a @ b) = textsOf a @ textsOf b"
  by (simp add: textsOf_def)

lemma textsOf_Nil [simp]: "textsOf [] = []"
  by (simp add: textsOf_def)

lemma textsOf_Cons [simp]: "textsOf (c # d) = textOf c @ textsOf d"
  by (simp add: textsOf_def)

lemma textsOf_setTextColor [simp]: "textsOf (setTextColor c d) = textsOf d"
  by (cases c) (simp add: setTextColor_def)

lemma grows_append_iff [simp]: "grows d (d @ ops) \<longleftrightarrow> AddPage \<notin> set ops"
  by (simp add: grows_def)

lemma passedAlign_table:
  "passedAlign e t al =
     (if containsArabic e t then adjustForDirection al (getTextDirection e t) else al)"
  by (cases al; cases "getTextDirection e t") (simp_all add: passedAlign_def adjustedAlign_def)

section \<open>The report\<close>

text \<open>
  Claim C2. For an empty list of orders, and an environment whose drawing calls do not
  throw, \<open>generateOrdersPDF\<close> returns a document of one page whose drawing calls are
  the header block (title, time of generation, separator line) followed by exactly one
  text, the message \<open>No orders to display\<close>, centred at the middle of the page: no
  rectangle, no column title and no table line is drawn.
\<close>

theorem empty_report_shows_only_message:
  assumes "reliable e" and "orders options = []"
  shows "\<exists>d. generateOrdersPDF e options = Inr d \<and>
           drawn d =
             [Text (getEnglishText T_title) (getWidth e Landscape / 2) 15 (Some AlignCenter),
              Text (getEnglishText T_generatedOn @ str '': '' @ toLocaleDateString e
                      @ str '' '' @ toLocaleTimeString e)
                (getWidth e Landscape / 2) 30 (Some AlignCenter),
              Line 15 40 (getWidth e Landscape - 15) 40,
              Text (getEnglishText T_noOrders) (getWidth e Landscape / 2) 70 (Some AlignCenter)]
           \<and> pageCount d = 1"
proof -
  let ?st0 = "\<lparr>currentY = margin (config e), currentPageNumber = 1,
               doc = initializeArabicFonts e [NewDocument Landscape]\<rparr>"
  obtain st1 where h: "addHeader e (config e) ?st0 = Inr st1"
    and y1: "currentY st1 = 50"
    and d1: "drawn (doc st1) =
      [Text (getEnglishText T_title) (getWidth e Landscape / 2) 15 (Some AlignCenter),
       Text (getEnglishText T_generatedOn @ str '': '' @ toLocaleDateString e
               @ str '' '' @ toLocaleTimeString e)
         (getWidth e Landscape / 2) 30 (Some AlignCenter),
       Line 15 40 (getWidth e Landscape - 15) 40]"
    using addHeader_drawn [OF assms(1), of "config e" ?st0] by (auto simp: config_def)
  obtain st2 where t: "addOrdersTable e (config e) [] st1 = Inr st2"
    and d2: "drawn (doc st2) = drawn (doc st1) @
      [Text (getEnglishText T_noOrders) (getWidth e Landscape / 2) 70 (Some AlignCenter)]"
    using addOrdersTable_empty_drawn [OF assms(1), of "config e" st1] y1
    by (auto simp: config_def)
  have g: "generateOrdersPDF e options = Inr (doc st2)"
    using h t assms(2) by (simp add: generateOrdersPDF_def Let_def)
  show ?thesis
    using g d1 d2 by (simp add: pageCount_drawn)
qed


theorem empty_report_shows_only_message_witness:
  "reliable (testEnv 2 None) \<and>
   (\<exists>d. generateOrdersPDF (testEnv 2 None)
           \<lparr>title = str ''Orders'', orders = [], language = Some En,
            showSummary = None, logoUrl = None\<rparr> = Inr d \<and>
        drawn d =
          [Text [1591, 1604, 1576, 1575, 1578, 32, 1575, 1604, 1610, 1608, 1605] (297 / 2) 15
             (Some AlignCenter),
           Text (str ''Generated on: 1/15/2024 10:30:00 AM'') (297 / 2) 30 (Some AlignCenter),
           Line 15 40 282 40,
           Text (str ''No orders to display'') (297 / 2) 70 (Some AlignCenter)] \<and>
        pageCount d = 1)"
  using empty_report_shows_only_message [OF testEnv_reliable,
      of "\<lparr>title = str ''Orders'', orders = [], language = Some En,
           showSummary = None, logoUrl = None\<rparr>" 2 None]
    testEnv_reliable [of 2 None]
  by (simp add: testEnv_def str_def)

subsection \<open>The table functions return\<close>

lemma drawHeaderCells_total:
  assumes "reliable e"
  shows "\<exists>d'. drawHeaderCells e cfg sy cols x d = Inr (x + sum_list (map width cols), d')"
proof (induction cols arbitrary: x d)
  case Nil
  then show ?case by simp
next
  case (Cons col cols)
  show ?case
    using Cons.IH [of "x + width col"]
    by (auto simp: addText_reliable [OF assms] Let_def add.assoc)
qed

lemma drawRowCells_total:
  assumes "reliable e"
  shows "\<exists>d'. drawRowCells e cfg order sy cols x d = Inr (x + sum_list (map width cols), d')"
proof (induction cols arbitrary: x d)
  case Nil
  then show ?case by simp
next
  case (Cons col cols)
  show ?case
    using Cons.IH [of "x + width col"]
    by (auto simp: addText_reliable [OF assms] Let_def add.assoc)
qed

lemma sum_widths: "sum_list (map width columns) = 218"
  by (simp add: columns_def)

lemma drawTableHeader_total:
  assumes "reliable e"
  shows "\<exists>d'. drawTableHeader e cfg sy d = Inr (sy + headerHeight, d')"
proof -
  let ?d2 = "setDrawColor (colors_border cfg)
               (setFillColor (colors_headerBg cfg) d
                  @ [RectF (margin cfg) (sy - 2) tableWidth headerHeight])
             @ [SetLineWidth (3 / 10)]"
  from drawHeaderCells_total [OF assms, of cfg sy columns "margin cfg" ?d2]
  show ?thesis
    by (auto simp: drawTableHeader_def Let_def)
qed

lemma drawTableRow_total:
  assumes "reliable e"
  shows "\<exists>d'. drawTableRow e cfg order sy alt d =
           Inr (sy + rowHeight,
                d' @ [Line (margin cfg) (sy + rowHeight - 2) (margin cfg + 218)
                        (sy + rowHeight - 2)])"
proof -
  let ?d1 = "if alt then setFillColor (colors_alternateRow cfg) d
                          @ [RectF (margin cfg) (sy - 2) tableWidth rowHeight]
             else d"
  let ?d2 = "setDrawColor (colors_border cfg) ?d1 @ [SetLineWidth (1 / 10)]"
  from drawRowCells_total [OF assms, of cfg order sy columns "margin cfg" ?d2]
  obtain d3 where "drawRowCells e cfg order sy columns (margin cfg) ?d2
      = Inr (margin cfg + 218, d3)"
    by (auto simp: sum_widths)
  then have "drawTableRow e cfg order sy alt d =
      Inr (sy + rowHeight,
           (d3 @ [Line (margin cfg + 218) (sy - 2) (margin cfg + 218) (sy + rowHeight - 2)])
             @ [Line (margin cfg) (sy + rowHeight - 2) (margin cfg + 218)
                  (sy + rowHeight - 2)])"
    by (simp add: drawTableRow_def Let_def)
  then show ?thesis by blast
qed

text \<open>The loop over the orders returns for every page height.\<close>

lemma drawRows_total:
  assumes "reliable e"
  shows "\<exists>ty' st' ops. drawRows e cfg os i ty st = Inr (ty', st') \<and> doc st' = doc st @ ops"
proof (induction os arbitrary: i ty st)
  case Nil
  then show ?case by simp
next
  case (Cons order rest)
  obtain added st1 where c: "checkAndAddPage cfg (rowHeight + 5) st = (added, st1)"
    by (cases "checkAndAddPage cfg (rowHeight + 5) st")
  then obtain ops0 where p0: "doc st1 = doc st @ ops0"
    by (auto simp: checkAndAddPage_def split: if_splits)
  obtain ty1 d1 where hd: "(if added then drawTableHeader e cfg (currentY st1) (doc st1)
      else Inr (ty, doc st1)) = Inr (ty1, d1)"
    using drawTableHeader_total [OF assms, of cfg "currentY st1" "doc st1"]
    by (cases added) auto
  then obtain ops1 where p1: "d1 = doc st1 @ ops1"
    by (auto simp: grows_def split: if_splits dest!: drawTableHeader_grows)
  obtain ty2 d2 where row: "drawTableRow e cfg order ty1 (i mod 2 = 1) d1 = Inr (ty2, d2)"
    using drawTableRow_total [OF assms, of cfg order ty1 "i mod 2 = 1" d1] by auto
  then obtain ops2 where p2: "d2 = d1 @ ops2"
    by (auto simp: grows_def dest!: drawTableRow_grows)
  from Cons.IH [of "i + 1" ty2 "st1\<lparr>doc := d2\<rparr>"]
  obtain ty' st' ops where "drawRows e cfg rest (i + 1) ty2 (st1\<lparr>doc := d2\<rparr>) = Inr (ty', st')"
    and "doc st' = d2 @ ops"
    by auto
  with c hd row p0 p1 p2 show ?case
    by simp
qed

lemma addOrdersTable_total:
  assumes "reliable e"
  shows "\<exists>st' ops. addOrdersTable e cfg os st = Inr st' \<and> doc st' = doc st @ ops"
proof (cases "os = []")
  case True
  then show ?thesis
    by (simp add: addOrdersTable_def addText_reliable [OF assms] Let_def setTextColor_def
        split: prod.splits)
next
  case False
  obtain added st1 where c: "checkAndAddPage cfg (headerHeight + rowHeight * 3) st = (added, st1)"
    by (cases "checkAndAddPage cfg (headerHeight + rowHeight * 3) st")
  then obtain ops0 where p0: "doc st1 = doc st @ ops0"
    by (auto simp: checkAndAddPage_def split: if_splits)
  let ?ty = "if added then currentY st1 else currentY st"
  obtain d1 where hd: "drawTableHeader e cfg ?ty (doc st1) = Inr (?ty + headerHeight, d1)"
    using drawTableHeader_total [OF assms] by blast
  then obtain ops1 where p1: "d1 = doc st1 @ ops1"
    by (auto simp: grows_def dest!: drawTableHeader_grows)
  from drawRows_total [OF assms, of cfg os 0 "?ty + headerHeight" "st1\<lparr>doc := d1\<rparr>"]
  obtain ty' st' ops where "drawRows e cfg os 0 (?ty + headerHeight) (st1\<lparr>doc := d1\<rparr>)
      = Inr (ty', st')" and "doc st' = d1 @ ops"
    by auto
  with False c hd p0 p1 show ?thesis
    by (simp add: addOrdersTable_def Let_def)
qed

text \<open>On a page where the check never fires, the loop returns the start of the next row and
  ends with the bottom border of the last one.\<close>

lemma drawRows_last:
  assumes "reliable e"
    and "currentY st + (rowHeight + 5) \<le> pageHeight cfg - margin cfg - 10"
    and "os \<noteq> []"
  shows "\<exists>st'. drawRows e cfg os i ty st = Inr (ty + rowHeight * of_nat (length os), st') \<and>
           currentY st' = currentY st \<and>
           last (doc st') =
             Line (margin cfg) (ty + rowHeight * of_nat (length os) - 2) (margin cfg + 218)
               (ty + rowHeight * of_nat (length os) - 2)"
  using assms(2,3)
proof (induction os arbitrary: i ty st)
  case Nil
  then show ?case by simp
next
  case (Cons order rest)
  from drawTableRow_total [OF assms(1), of cfg order ty "i mod 2 = 1" "doc st"]
  obtain d2 where row: "drawTableRow e cfg order ty (i mod 2 = 1) (doc st) =
      Inr (ty + rowHeight,
           d2 @ [Line (margin cfg) (ty + rowHeight - 2) (margin cfg + 218) (ty + rowHeight - 2)])"
    by blast
  let ?st2 = "st\<lparr>doc := d2 @ [Line (margin cfg) (ty + rowHeight - 2) (margin cfg + 218)
                                 (ty + rowHeight - 2)]\<rparr>"
  show ?case
  proof (cases "rest = []")
    case True
    with row Cons.prems(1) show ?thesis
      by (simp add: checkAndAddPage_fits)
  next
    case False
    have fits: "currentY ?st2 + (rowHeight + 5) \<le> pageHeight cfg - margin cfg - 10"
      using Cons.prems(1) by simp
    from Cons.IH [OF fits False, of "i + 1" "ty + rowHeight"] row Cons.prems(1)
    show ?thesis
      by (auto simp: checkAndAddPage_fits algebra_simps)
  qed
qed


lemma addOrdersTable_last:
  assumes "reliable e"
    and "currentY st + (headerHeight + rowHeight * 3) \<le> pageHeight cfg - margin cfg - 10"
    and "os \<noteq> []"
  shows "\<exists>st'. addOrdersTable e cfg os st = Inr st' \<and>
           last (doc st') =
             Line (margin cfg) (currentY st + headerHeight + rowHeight * of_nat (length os) - 2)
               (margin cfg + 218)
               (currentY st + headerHeight + rowHeight * of_nat (length os) - 2)"
proof -
  obtain d1 where hd: "drawTableHeader e cfg (currentY st) (doc st)
      = Inr (currentY st + headerHeight, d1)"
    using drawTableHeader_total [OF assms(1)] by blast
  have fits: "currentY (st\<lparr>doc := d1\<rparr>) + (rowHeight + 5) \<le> pageHeight cfg - margin cfg - 10"
    using assms(2) by (simp add: rowHeight_def headerHeight_def)
  from drawRows_last [OF assms(1) fits assms(3), of 0 "currentY st + headerHeight"]
  obtain st2 where "drawRows e cfg os 0 (currentY st + headerHeight) (st\<lparr>doc := d1\<rparr>)
      = Inr (currentY st + headerHeight + rowHeight * of_nat (length os), st2)"
    and "last (doc st2) =
      Line (margin cfg) (currentY st + headerHeight + rowHeight * of_nat (length os) - 2)
        (margin cfg + 218) (currentY st + headerHeight + rowHeight * of_nat (length os) - 2)"
    by blast
  with hd assms(2,3) show ?thesis
    by (simp add: addOrdersTable_def checkAndAddPage_fits Let_def)
qed

lemma generateOrdersPDF_header:
  assumes "reliable e"
  shows "\<exists>d rest. generateOrdersPDF e options = Inr d \<and>
           drawn d =
             [Text (getEnglishText T_title) (getWidth e Landscape / 2) 15 (Some AlignCenter),
              Text (getEnglishText T_generatedOn @ str '': '' @ toLocaleDateString e
                      @ str '' '' @ toLocaleTimeString e)
                (getWidth e Landscape / 2) 30 (Some AlignCenter),
              Line 15 40 (getWidth e Landscape - 15) 40] @ rest"
proof -
  let ?st0 = "\<lparr>currentY = margin (config e), currentPageNumber = 1,
               doc = initializeArabicFonts e [NewDocument Landscape]\<rparr>"
  obtain st1 where h: "addHeader e (config e) ?st0 = Inr st1"
    and d1: "drawn (doc st1) =
      [Text (getEnglishText T_title) (getWidth e Landscape / 2) 15 (Some AlignCenter),
       Text (getEnglishText T_generatedOn @ str '': '' @ toLocaleDateString e
               @ str '' '' @ toLocaleTimeString e)
         (getWidth e Landscape / 2) 30 (Some AlignCenter),
       Line 15 40 (getWidth e Landscape - 15) 40]"
    using addHeader_drawn [OF assms, of "config e" ?st0] by (auto simp: config_def)
  obtain st2 ops where t: "addOrdersTable e (config e) (orders options) st1 = Inr st2"
    and d2: "doc st2 = doc st1 @ ops"
    using addOrdersTable_total [OF assms] by blast
  have "generateOrdersPDF e options = Inr (doc st2)"
    using h t by (simp add: generateOrdersPDF_def Let_def)
  with d1 d2 show ?thesis by simp
qed

text \<open>
  The options other than the orders are not read: for every title, list of orders, summary
  flag and logo, \<open>generateOrdersPDF\<close> returns the same result (the same calls, or the
  same exception) for the language \<open>en\<close> as for \<open>ar\<close>; and whatever the language,
  under an environment whose drawing calls do not throw the document starts with the header
  block: the fixed title of \<open>getEnglishText\<close> and the line \<open>Generated on: \<close> with the
  date and time in the \<open>en-US\<close> format, both centred, and the separator line.
\<close>

lemma language_is_not_read:
  "generateOrdersPDF e
     \<lparr>title = t, orders = os, language = Some En, showSummary = s, logoUrl = u\<rparr>
   = generateOrdersPDF e
       \<lparr>title = t, orders = os, language = Some Ar, showSummary = s, logoUrl = u\<rparr>
   \<and> (reliable e \<longrightarrow>
        (\<exists>d. generateOrdersPDF e
                \<lparr>title = t, orders = os, language = l, showSummary = s, logoUrl = u\<rparr> = Inr d \<and>
           take 3 (drawn d) =
             [Text (getEnglishText T_title) (getWidth e Landscape / 2) 15 (Some AlignCenter),
              Text (getEnglishText T_generatedOn @ str '': '' @ toLocaleDateString e
                      @ str '' '' @ toLocaleTimeString e)
                (getWidth e Landscape / 2) 30 (Some AlignCenter),
              Line 15 40 (getWidth e Landscape - 15) 40]))"
proof (intro conjI impI)
  show "generateOrdersPDF e
          \<lparr>title = t, orders = os, language = Some En, showSummary = s, logoUrl = u\<rparr>
        = generateOrdersPDF e
            \<lparr>title = t, orders = os, language = Some Ar, showSummary = s, logoUrl = u\<rparr>"
    by (simp add: generateOrdersPDF_def)
next
  assume "reliable e"
  from generateOrdersPDF_header [OF this,
      of "\<lparr>title = t, orders = os, language = l, showSummary = s, logoUrl = u\<rparr>"]
  show "\<exists>d. generateOrdersPDF e
               \<lparr>title = t, orders = os, language = l, showSummary = s, logoUrl = u\<rparr> = Inr d \<and>
          take 3 (drawn d) =
            [Text (getEnglishText T_title) (getWidth e Landscape / 2) 15 (Some AlignCenter),
             Text (getEnglishText T_generatedOn @ str '': '' @ toLocaleDateString e
                     @ str '' '' @ toLocaleTimeString e)
               (getWidth e Landscape / 2) 30 (Some AlignCenter),
             Line 15 40 (getWidth e Landscape - 15) 40]"
    by auto
qed

text \<open>
  Claim C7, evaluated where it fails. The language is not read, so the report for \<open>en\<close>
  is the report for \<open>ar\<close>; but the header block is not in one language. The source
  calls its fixed texts English (the comments at lines 60 and 289), and the line of the
  time of generation is English, while the title that \<open>getEnglishText\<close> returns (line
  63) is Arabic: its code units are letters of the Arabic block and one space.
\<close>

theorem header_title_is_arabic:
  "generateOrdersPDF (testEnv 2 None)
     \<lparr>title = str ''Orders'', orders = [emptyOrder], language = Some En,
      showSummary = None, logoUrl = None\<rparr>
   = generateOrdersPDF (testEnv 2 None)
       \<lparr>title = str ''Orders'', orders = [emptyOrder], language = Some Ar,
        showSummary = None, logoUrl = None\<rparr>
   \<and> (\<exists>d. generateOrdersPDF (testEnv 2 None)
             \<lparr>title = str ''Orders'', orders = [emptyOrder], language = Some En,
              showSummary = None, logoUrl = None\<rparr> = Inr d \<and>
          take 3 (drawn d) =
            [Text [1591, 1604, 1576, 1575, 1578, 32, 1575, 1604, 1610, 1608, 1605] (297 / 2) 15
               (Some AlignCenter),
             Text (str ''Generated on: 1/15/2024 10:30:00 AM'') (297 / 2) 30 (Some AlignCenter),
             Line 15 40 282 40])
   \<and> list_all (\<lambda>c. (1536 \<le> c \<and> c \<le> 1791) \<or> c = 32)
         [1591, 1604, 1576, 1575, 1578, 32, 1575, 1604, 1610, 1608, 1605::nat]
   \<and> list_all (\<lambda>c. 32 \<le> c \<and> c \<le> 126) (str ''Generated on: 1/15/2024 10:30:00 AM'')"
proof -
  have "list_all (\<lambda>c. (1536 \<le> c \<and> c \<le> 1791) \<or> c = 32)
          [1591, 1604, 1576, 1575, 1578, 32, 1575, 1604, 1610, 1608, 1605::nat]"
    by simp
  moreover have "list_all (\<lambda>c. 32 \<le> c \<and> c \<le> 126) (str ''Generated on: 1/15/2024 10:30:00 AM'')"
    by (simp add: str_def)
  moreover note L = language_is_not_read [of "testEnv 2 None" "str ''Orders''" "[emptyOrder]"
      None None "Some En"]
  have "\<exists>d. generateOrdersPDF (testEnv 2 None)
             \<lparr>title = str ''Orders'', orders = [emptyOrder], language = Some En,
              showSummary = None, logoUrl = None\<rparr> = Inr d \<and>
          take 3 (drawn d) =
            [Text [1591, 1604, 1576, 1575, 1578, 32, 1575, 1604, 1610, 1608, 1605] (297 / 2) 15
               (Some AlignCenter),
             Text (str ''Generated on: 1/15/2024 10:30:00 AM'') (297 / 2) 30 (Some AlignCenter),
             Line 15 40 282 40]"
    using L [THEN conjunct2, rule_format, OF testEnv_reliable]
    by (simp add: testEnv_def str_def)
  ultimately show ?thesis
    using L [THEN conjunct1] by blast
qed

text \<open>
  Claim C3, evaluated where it fails. The page check of the row loop reads \<open>currentY\<close>,
  which stays at 50 while the rows advance the local \<open>tableY\<close>; on an A4 page in
  landscape (297 by 210) the check never fires. For thirty orders the document has one
  page, and its last call draws the bottom border of the thirtieth row at height 298, below
  the end of the page at 210.
\<close>

theorem thirty_orders_on_one_page:
  "\<exists>d. generateOrdersPDF (testEnv 2 None)
          \<lparr>title = str ''Orders'', orders = replicate 30 emptyOrder, language = Some En,
           showSummary = None, logoUrl = None\<rparr> = Inr d \<and>
        pageCount d = 1 \<and> last d = Line 15 298 233 298 \<and>
        getHeight (testEnv 2 None) Landscape = 210"
proof -
  let ?e = "testEnv 2 None"
  let ?os = "replicate 30 emptyOrder"
  let ?options = "\<lparr>title = str ''Orders'', orders = ?os, language = Some En,
                   showSummary = None, logoUrl = None\<rparr>"
  let ?st0 = "\<lparr>currentY = margin (config ?e), currentPageNumber = 1,
               doc = initializeArabicFonts ?e [NewDocument Landscape]\<rparr>"
  have rel: "reliable ?e" by (rule testEnv_reliable)
  have H: "getHeight ?e Landscape = 210" by (simp add: testEnv_def)
  obtain st1 where h: "addHeader ?e (config ?e) ?st0 = Inr st1" and y1: "currentY st1 = 50"
    using addHeader_drawn [OF rel, of "config ?e" ?st0] by (auto simp: config_def)
  have fits: "currentY st1 + (headerHeight + rowHeight * 3)
      \<le> pageHeight (config ?e) - margin (config ?e) - 10"
    using y1 H by (simp add: config_def headerHeight_def rowHeight_def)
  have ne: "?os \<noteq> []" by simp
  from addOrdersTable_last [OF rel fits ne] y1
  obtain st2 where t: "addOrdersTable ?e (config ?e) ?os st1 = Inr st2"
    and l: "last (doc st2) = Line 15 298 233 298"
    by (auto simp: config_def headerHeight_def rowHeight_def)
  have g: "generateOrdersPDF ?e ?options = Inr (doc st2)"
    using h t by (simp add: generateOrdersPDF_def Let_def)
  have "pageCount (doc st2) = 1"
    using generateOrdersPDF_one_page [OF _ g] H by simp
  with g l H show ?thesis by blast
qed


section \<open>The text renderer\<close>

text \<open>
  Claim C5. Under an environment whose drawing calls do not throw, both renderers end
  with the draw of the text, and the alignment they pass is the requested one (or the
  renderer's default), adjusted by the truth table when the text is classified as Arabic:
  left becomes right and right becomes left for the direction rtl, center stays center,
  and for the direction ltr, as for a text that is not Arabic, it is unchanged.
\<close>

theorem alignment_adjusted_for_direction:
  assumes "reliable e"
  shows "(\<exists>h d1 ft px.
            addText e cfg t x y options d =
              Inr (h, d1 @ [Text ft px y
                 (Some (let requested = (case align options of None \<Rightarrow> AlignCenter | Some a \<Rightarrow> a)
                        in if containsArabic e t
                           then adjustForDirection requested (getTextDirection e t)
                           else requested))]))
       \<and> (\<exists>h d1 ft.
            addText_receipt e t x y options d =
              Inr (h, d1 @ [Text ft x y
                 (Some (let requested = (case align options of None \<Rightarrow> AlignLeft | Some a \<Rightarrow> a)
                        in if containsArabic e t
                           then adjustForDirection requested (getTextDirection e t)
                           else requested))]))"
  unfolding addText_reliable [OF assms] addText_receipt_reliable [OF assms] Let_def
    passedAlign_table
  by blast


theorem alignment_adjusted_for_direction_witness:
  "reliable (testEnv 2 None) \<and>
   (\<exists>h d1 ft px.
      addText (testEnv 2 None) (config (testEnv 2 None)) [1605, 1585, 1581, 1576, 1575] 10 20
        (noOptions\<lparr>align := Some AlignLeft\<rparr>) []
      = Inr (h, d1 @ [Text ft px 20 (Some AlignRight)])) \<and>
   (\<exists>h d1 ft.
      addText_receipt (testEnv 2 None) [1605, 1585, 1581, 1576, 1575] 10 20
        (noOptions\<lparr>align := Some AlignLeft\<rparr>) []
      = Inr (h, d1 @ [Text ft 10 20 (Some AlignRight)]))"
  using alignment_adjusted_for_direction [OF testEnv_reliable,
      of 2 None "config (testEnv 2 None)" "[1605, 1585, 1581, 1576, 1575]" 10 20
         "noOptions\<lparr>align := Some AlignLeft\<rparr>" "[]"]
    testEnv_reliable [of 2 None]
  by (simp add: testEnv_def containsArabicScript_def textDirection_def noOptions_def)

section \<open>The receipt\<close>

subsection \<open>The sections under a reliable environment\<close>

lemma addText_receipt_texts:
  assumes "reliable e"
  shows "\<exists>h d' dd. addText_receipt e t x y options d = Inr (h, d') \<and> grows d d' \<and>
           textsOf d' = textsOf d @ [finalText e dd t (maxWidth options)]"
proof -
  from addText_receipt_reliable [OF assms, of t x y options d]
  obtain h d' where r: "addText_receipt e t x y options d = Inr (h, d')"
    unfolding Let_def by blast
  moreover have "grows d d'"
    using r by (rule addText_receipt_grows)
  moreover have "\<exists>dd. textsOf d' = textsOf d @ [finalText e dd t (maxWidth options)]"
    using r assms by (auto simp: addText_receipt_reliable Let_def)
  ultimately show ?thesis by blast
qed

lemma addText_receipt_plain:
  assumes "reliable e" and "maxWidth options = None"
  shows "\<exists>h d'. addText_receipt e t x y options d = Inr (h, d') \<and> grows d d' \<and>
           textsOf d' = textsOf d @ [t]"
  using addText_receipt_texts [OF assms(1), of t x y options d] assms(2) by auto

lemma maxWidth_simps [simp]:
  "maxWidth noOptions = None"
  "maxWidth sectionTitle = None"
  by (simp_all add: noOptions_def sectionTitle_def)

lemma optionalLine_texts:
  assumes "reliable e"
  shows "\<exists>y' d'. optionalLine e shown t x y d = Inr (y', d') \<and> grows d d' \<and>
           textsOf d' = textsOf d @ (if shown then [t] else [])"
proof (cases shown)
  case True
  from addText_receipt_plain [OF assms, of noOptions t x y d]
  show ?thesis using True by (auto simp: optionalLine_def)
next
  case False
  then show ?thesis by (simp add: optionalLine_def)
qed


lemma headerImage_fallback:
  assumes "reliable e" and "imageFails e d"
  shows "headerImage e w m y d =
           Inr (y + 15,
                d @ [SetFontSize 20, SetFont (chosenFont e (str ''RECEIPT'')) Bold,
                     SetTextColor 0 0 0,
                     Text (str ''RECEIPT'') (w / 2) y (Some AlignCenter)])"
  using assms(2)
  by (auto simp: headerImage_def imageFails_def convertImageToBase64_def addImage_def
      addText_receipt_reliable [OF assms(1)] Let_def setTextColor_def
      split: imageLoad.splits)

lemma headerImage_loaded:
  assumes "\<not> imageFails e d"
  shows "\<exists>img. headerImage e w m y d = Inr (y + 50, d @ [AddImage img m y (w - 2 * m) 35])"
  using assms
  by (auto simp: headerImage_def imageFails_def convertImageToBase64_def addImage_def Let_def
      split: imageLoad.splits)

lemma receiptNumberAndDate_texts:
  assumes "reliable e"
  shows "\<exists>y' d'. receiptNumberAndDate e order w m y d = Inr (y', d') \<and> grows d d' \<and>
           textsOf d' = textsOf d @
             [str ''Receipt No: ''
                @ orElse (receiptNo order) (orElse (orderId order) (str ''N/A'')),
              str ''Date: '' @ orElse (date order) (str ''N/A''),
              str ''Time: '' @ orElse (time order) (str ''N/A'')]"
proof -
  let ?d1 = "d @ [SetFillColor 248 250 252, RectF m (y - 5) (w - 2 * m) 25]"
  have g1: "grows d ?d1" by simp
  obtain h2 d2 where a2: "addText_receipt e
      (str ''Receipt No: '' @ orElse (receiptNo order) (orElse (orderId order) (str ''N/A'')))
      m y (noOptions\<lparr>fontSize := Some 12, fontStyle := Some Bold\<rparr>) ?d1 = Inr (h2, d2)"
    and g2: "grows ?d1 d2"
    and t2: "textsOf d2 = textsOf ?d1 @
      [str ''Receipt No: '' @ orElse (receiptNo order) (orElse (orderId order) (str ''N/A''))]"
    using addText_receipt_plain [OF assms, of "noOptions\<lparr>fontSize := Some 12, fontStyle := Some Bold\<rparr>"]
    by (fastforce simp: noOptions_def)
  obtain h3 d3 where a3: "addText_receipt e (str ''Date: '' @ orElse (date order) (str ''N/A''))
      (w / 2) y noOptions d2 = Inr (h3, d3)"
    and g3: "grows d2 d3"
    and t3: "textsOf d3 = textsOf d2 @ [str ''Date: '' @ orElse (date order) (str ''N/A'')]"
    using addText_receipt_plain [OF assms, of noOptions] by fastforce
  obtain h4 d4 where a4: "addText_receipt e (str ''Time: '' @ orElse (time order) (str ''N/A''))
      (w / 2) (y + 8) noOptions d3 = Inr (h4, d4)"
    and g4: "grows d3 d4"
    and t4: "textsOf d4 = textsOf d3 @ [str ''Time: '' @ orElse (time order) (str ''N/A'')]"
    using addText_receipt_plain [OF assms, of noOptions] by fastforce
  have "receiptNumberAndDate e order w m y d = Inr (y + 8 + 15, d4)"
    using a2 a3 a4 by (simp add: receiptNumberAndDate_def Let_def)
  moreover have "grows d d4"
    using g1 g2 g3 g4 by (blast intro: grows_trans)
  ultimately show ?thesis
    using t2 t3 t4 by simp
qed

lemma customerInformation_texts:
  assumes "reliable e"
  shows "\<exists>y' d'. customerInformation e order w m y d = Inr (y', d') \<and> grows d d' \<and>
           textsOf d' = textsOf d @
             [str ''Customer Information:'',
              str ''Name: '' @ orElse (name order) (str ''N/A''),
              str ''Phone: '' @ orElse (phoneNumber order) (str ''N/A'')]
             @ (if truthy (address order) then [str ''Address: '' @ stored (address order)] else [])
             @ (if truthy (location order) then [str ''Location: '' @ stored (location order)]
                else [])"
proof -
  obtain h1 d1 where a1: "addText_receipt e (str ''Customer Information:'') m y sectionTitle d
      = Inr (h1, d1)"
    and g1: "grows d d1" and t1: "textsOf d1 = textsOf d @ [str ''Customer Information:'']"
    using addText_receipt_plain [OF assms, of sectionTitle] by fastforce
  obtain h2 d2 where a2: "addText_receipt e (str ''Name: '' @ orElse (name order) (str ''N/A''))
      m (y + 10) noOptions d1 = Inr (h2, d2)"
    and g2: "grows d1 d2"
    and t2: "textsOf d2 = textsOf d1 @ [str ''Name: '' @ orElse (name order) (str ''N/A'')]"
    using addText_receipt_plain [OF assms, of noOptions] by fastforce
  obtain h3 d3 where a3: "addText_receipt e
      (str ''Phone: '' @ orElse (phoneNumber order) (str ''N/A'')) (w / 2) (y + 10) noOptions d2
      = Inr (h3, d3)"
    and g3: "grows d2 d3"
    and t3: "textsOf d3 = textsOf d2
      @ [str ''Phone: '' @ orElse (phoneNumber order) (str ''N/A'')]"
    using addText_receipt_plain [OF assms, of noOptions] by fastforce
  obtain y4 d4 where a4: "(if truthy (address order) then
        andThen (addText_receipt e (str ''Address: '' @ stored (address order))
                   m (y + 10 + 8) noOptions d3)
          (\<lambda>(h4, d4). Inr (y + 10 + 8 + 8, d4))
      else Inr (y + 10 + 8, d3)) = Inr (y4, d4)"
    and g4: "grows d3 d4"
    and t4: "textsOf d4 = textsOf d3
      @ (if truthy (address order) then [str ''Address: '' @ stored (address order)] else [])"
    using addText_receipt_plain [OF assms, of noOptions
        "str ''Address: '' @ stored (address order)" m "y + 10 + 8" d3]
    by (cases "truthy (address order)") auto
  obtain y5 d5 where a5: "(if truthy (location order) then
        andThen (addText_receipt e (str ''Location: '' @ stored (location order))
                   (w / 2) y4 noOptions d4)
          (\<lambda>(h5, d5). Inr (y4 + 8, d5))
      else Inr (y4, d4)) = Inr (y5, d5)"
    and g5: "grows d4 d5"
    and t5: "textsOf d5 = textsOf d4
      @ (if truthy (location order) then [str ''Location: '' @ stored (location order)] else [])"
    using addText_receipt_plain [OF assms, of noOptions
        "str ''Location: '' @ stored (location order)" "w / 2" y4 d4]
    by (cases "truthy (location order)") auto
  have "customerInformation e order w m y d = Inr (y5 + 12, d5)"
    using a1 a2 a3 a4 a5 by (simp add: customerInformation_def Let_def)
  moreover have "grows d d5"
    using g1 g2 g3 g4 g5 by (blast intro: grows_trans)
  ultimately show ?thesis
    using t1 t2 t3 t4 t5 by simp
qed


lemma orderDetailsSection_texts:
  assumes "reliable e"
  shows "\<exists>y' d' dd. orderDetailsSection e order w m y d = Inr (y', d') \<and> grows d d' \<and>
           textsOf d' = textsOf d @
             [str ''Order Details:'',
              finalText e dd (orElse (orderDetails order) (str ''N/A'')) (Some (w - 2 * m))]"
proof -
  obtain h1 d1 where a1: "addText_receipt e (str ''Order Details:'') m y sectionTitle d
      = Inr (h1, d1)"
    and g1: "grows d d1" and t1: "textsOf d1 = textsOf d @ [str ''Order Details:'']"
    using addText_receipt_plain [OF assms, of sectionTitle] by fastforce
  obtain h2 d2 dd where a2: "addText_receipt e (orElse (orderDetails order) (str ''N/A''))
      m (y + 10) (noOptions\<lparr>maxWidth := Some (w - 2 * m)\<rparr>) d1 = Inr (h2, d2)"
    and g2: "grows d1 d2"
    and t2: "textsOf d2 = textsOf d1
      @ [finalText e dd (orElse (orderDetails order) (str ''N/A'')) (Some (w - 2 * m))]"
    using addText_receipt_texts [OF assms, of "orElse (orderDetails order) (str ''N/A'')"
        m "y + 10" "noOptions\<lparr>maxWidth := Some (w - 2 * m)\<rparr>" d1]
    by auto
  have "orderDetailsSection e order w m y d = Inr (y + 10 + 15, d2)"
    using a1 a2 by (simp add: orderDetailsSection_def)
  moreover have "grows d d2"
    using g1 g2 by (blast intro: grows_trans)
  ultimately show ?thesis
    using t1 t2 by auto
qed

lemma deliveryInformation_texts:
  assumes "reliable e"
  shows "\<exists>y' d'. deliveryInformation e order w m y d = Inr (y', d') \<and> grows d d' \<and>
           textsOf d' = textsOf d @
             [str ''Delivery Information:'',
              str ''Type: '' @ orElse (deliveryType order) (str ''N/A'')]"
proof -
  obtain h1 d1 where a1: "addText_receipt e (str ''Delivery Information:'') m y sectionTitle d
      = Inr (h1, d1)"
    and g1: "grows d d1" and t1: "textsOf d1 = textsOf d @ [str ''Delivery Information:'']"
    using addText_receipt_plain [OF assms, of sectionTitle] by fastforce
  obtain h2 d2 where a2: "addText_receipt e
      (str ''Type: '' @ orElse (deliveryType order) (str ''N/A'')) m (y + 10) noOptions d1
      = Inr (h2, d2)"
    and g2: "grows d1 d2"
    and t2: "textsOf d2 = textsOf d1
      @ [str ''Type: '' @ orElse (deliveryType order) (str ''N/A'')]"
    using addText_receipt_plain [OF assms, of noOptions] by fastforce
  have "deliveryInformation e order w m y d = Inr (y + 10 + 15, d2)"
    using a1 a2 by (simp add: deliveryInformation_def)
  moreover have "grows d d2"
    using g1 g2 by (blast intro: grows_trans)
  ultimately show ?thesis
    using t1 t2 by simp
qed

lemma paymentInformation_texts:
  assumes "reliable e"
  shows "\<exists>y' d'. paymentInformation e order w m y d = Inr (y', d') \<and> grows d d' \<and>
           textsOf d' = textsOf d @
             [str ''Payment Information:'',
              str ''Total Amount: OMR '' @ orElse (totalPayment order) (str ''0.000'')]
             @ (if truthy (paymentType order)
                then [str ''Payment Type: '' @ toUpperCase e (stored (paymentType order))] else [])
             @ (if positiveAmount e (advancePayment order)
                then [str ''Advance Payment: OMR '' @ stored (advancePayment order)] else [])
             @ (if positiveAmount e (balancePayment order)
                then [str ''Balance Payment: OMR '' @ stored (balancePayment order)] else [])
             @ (if positiveAmount e (discount order)
                then [str ''Discount: OMR '' @ stored (discount order)] else [])"
proof -
  obtain h1 d1 where a1: "addText_receipt e (str ''Payment Information:'') m y sectionTitle d
      = Inr (h1, d1)"
    and g1: "grows d d1" and t1: "textsOf d1 = textsOf d @ [str ''Payment Information:'']"
    using addText_receipt_plain [OF assms, of sectionTitle] by fastforce
  obtain h2 d2 where a2: "addText_receipt e
      (str ''Total Amount: OMR '' @ orElse (totalPayment order) (str ''0.000''))
      m (y + 10) sectionTitle d1 = Inr (h2, d2)"
    and g2: "grows d1 d2"
    and t2: "textsOf d2 = textsOf d1
      @ [str ''Total Amount: OMR '' @ orElse (totalPayment order) (str ''0.000'')]"
    using addText_receipt_plain [OF assms, of sectionTitle] by fastforce
  obtain d3 where a3: "(if truthy (paymentType order) then
        andThen (addText_receipt e
                   (str ''Payment Type: '' @ toUpperCase e (stored (paymentType order)))
                   (w / 2) (y + 10) noOptions d2)
          (\<lambda>(h3, d3). Inr d3)
      else Inr d2) = Inr d3"
    and g3: "grows d2 d3"
    and t3: "textsOf d3 = textsOf d2
      @ (if truthy (paymentType order)
         then [str ''Payment Type: '' @ toUpperCase e (stored (paymentType order))] else [])"
    using addText_receipt_plain [OF assms, of noOptions
        "str ''Payment Type: '' @ toUpperCase e (stored (paymentType order))"
        "w / 2" "y + 10" d2]
    by (cases "truthy (paymentType order)") auto
  obtain y4 d4 where a4: "optionalLine e (positiveAmount e (advancePayment order))
      (str ''Advance Payment: OMR '' @ stored (advancePayment order)) m (y + 10 + 8) d3
      = Inr (y4, d4)"
    and g4: "grows d3 d4"
    and t4: "textsOf d4 = textsOf d3
      @ (if positiveAmount e (advancePayment order)
         then [str ''Advance Payment: OMR '' @ stored (advancePayment order)] else [])"
    using optionalLine_texts [OF assms, of "positiveAmount e (advancePayment order)"
        "str ''Advance Payment: OMR '' @ stored (advancePayment order)" m "y + 10 + 8" d3]
    by auto
  obtain y5 d5 where a5: "optionalLine e (positiveAmount e (balancePayment order))
      (str ''Balance Payment: OMR '' @ stored (balancePayment order)) (w / 2) y4 d4
      = Inr (y5, d5)"
    and g5: "grows d4 d5"
    and t5: "textsOf d5 = textsOf d4
      @ (if positiveAmount e (balancePayment order)
         then [str ''Balance Payment: OMR '' @ stored (balancePayment order)] else [])"
    using optionalLine_texts [OF assms, of "positiveAmount e (balancePayment order)"
        "str ''Balance Payment: OMR '' @ stored (balancePayment order)" "w / 2" y4 d4]
    by auto
  obtain y6 d6 where a6: "optionalLine e (positiveAmount e (discount order))
      (str ''Discount: OMR '' @ stored (discount order)) m y5 d5 = Inr (y6, d6)"
    and g6: "grows d5 d6"
    and t6: "textsOf d6 = textsOf d5
      @ (if positiveAmount e (discount order)
         then [str ''Discount: OMR '' @ stored (discount order)] else [])"
    using optionalLine_texts [OF assms, of "positiveAmount e (discount order)"
        "str ''Discount: OMR '' @ stored (discount order)" m y5 d5]
    by auto
  have "paymentInformation e order w m y d = Inr (y6 + 8, d6)"
    using a1 a2 a3 a4 a5 a6 by (simp add: paymentInformation_def Let_def)
  moreover have "grows d d6"
    using g1 g2 g3 g4 g5 g6 by (blast intro: grows_trans)
  ultimately show ?thesis
    using t1 t2 t3 t4 t5 t6 by simp
qed

lemma receiptFooter_texts:
  assumes "reliable e"
  shows "\<exists>d'. receiptFooter e w ht m d = Inr d' \<and> grows d d' \<and>
           textsOf d' = textsOf d @ [str ''Thank you for your order!'']"
proof -
  let ?d1 = "d @ [SetDrawColor 200 200 200, SetLineWidth (5 / 10),
                  Line m (ht - m - 20 - 15) (w - m) (ht - m - 20 - 15)]"
  have g1: "grows d ?d1" by simp
  obtain h2 d2 where a2: "addText_receipt e (str ''Thank you for your order!'') (w / 2)
      (ht - m - 20 - 5)
      (noOptions\<lparr>align := Some AlignCenter, fontSize := Some 10, color := Some (100, 100, 100)\<rparr>)
      ?d1 = Inr (h2, d2)"
    and g2: "grows ?d1 d2"
    and t2: "textsOf d2 = textsOf ?d1 @ [str ''Thank you for your order!'']"
    using addText_receipt_plain [OF assms,
        of "noOptions\<lparr>align := Some AlignCenter, fontSize := Some 10,
                      color := Some (100, 100, 100)\<rparr>"]
    by (fastforce simp: noOptions_def)
  have "receiptFooter e w ht m d = Inr d2"
    using a2 by (simp add: receiptFooter_def Let_def)
  moreover have "grows d d2"
    using g1 g2 by (blast intro: grows_trans)
  ultimately show ?thesis
    using t2 by simp
qed


text \<open>The texts of the sections after the header image.\<close>

lemma receiptBody_texts:
  assumes "reliable e"
  shows "\<exists>d' dd. receiptBody e order w ht m y d = Inr d' \<and> grows d d' \<and>
           textsOf d' = textsOf d @
             [str ''Receipt No: ''
                @ orElse (receiptNo order) (orElse (orderId order) (str ''N/A'')),
              str ''Date: '' @ orElse (date order) (str ''N/A''),
              str ''Time: '' @ orElse (time order) (str ''N/A''),
              str ''Customer Information:'',
              str ''Name: '' @ orElse (name order) (str ''N/A''),
              str ''Phone: '' @ orElse (phoneNumber order) (str ''N/A'')]
             @ (if truthy (address order) then [str ''Address: '' @ stored (address order)] else [])
             @ (if truthy (location order) then [str ''Location: '' @ stored (location order)]
                else [])
             @ [str ''Order Details:'',
                finalText e dd (orElse (orderDetails order) (str ''N/A'')) (Some (w - 2 * m)),
                str ''Delivery Information:'',
                str ''Type: '' @ orElse (deliveryType order) (str ''N/A''),
                str ''Payment Information:'',
                str ''Total Amount: OMR '' @ orElse (totalPayment order) (str ''0.000'')]
             @ (if truthy (paymentType order)
                then [str ''Payment Type: '' @ toUpperCase e (stored (paymentType order))] else [])
             @ (if positiveAmount e (advancePayment order)
                then [str ''Advance Payment: OMR '' @ stored (advancePayment order)] else [])
             @ (if positiveAmount e (balancePayment order)
                then [str ''Balance Payment: OMR '' @ stored (balancePayment order)] else [])
             @ (if positiveAmount e (discount order)
                then [str ''Discount: OMR '' @ stored (discount order)] else [])
             @ [str ''Thank you for your order!'']"
proof -
  from receiptNumberAndDate_texts [OF assms, of order w m y d]
  obtain y1 d1 where a1: "receiptNumberAndDate e order w m y d = Inr (y1, d1)"
    and g1: "grows d d1"
    and t1: "textsOf d1 = textsOf d @
      [str ''Receipt No: '' @ orElse (receiptNo order) (orElse (orderId order) (str ''N/A'')),
       str ''Date: '' @ orElse (date order) (str ''N/A''),
       str ''Time: '' @ orElse (time order) (str ''N/A'')]"
    by blast
  from customerInformation_texts [OF assms, of order w m y1 d1]
  obtain y2 d2 where a2: "customerInformation e order w m y1 d1 = Inr (y2, d2)"
    and g2: "grows d1 d2"
    and t2: "textsOf d2 = textsOf d1 @
      [str ''Customer Information:'',
       str ''Name: '' @ orElse (name order) (str ''N/A''),
       str ''Phone: '' @ orElse (phoneNumber order) (str ''N/A'')]
      @ (if truthy (address order) then [str ''Address: '' @ stored (address order)] else [])
      @ (if truthy (location order) then [str ''Location: '' @ stored (location order)] else [])"
    by blast
  from orderDetailsSection_texts [OF assms, of order w m y2 d2]
  obtain y3 d3 dd where a3: "orderDetailsSection e order w m y2 d2 = Inr (y3, d3)"
    and g3: "grows d2 d3"
    and t3: "textsOf d3 = textsOf d2 @
      [str ''Order Details:'',
       finalText e dd (orElse (orderDetails order) (str ''N/A'')) (Some (w - 2 * m))]"
    by blast
  from deliveryInformation_texts [OF assms, of order w m y3 d3]
  obtain y4 d4 where a4: "deliveryInformation e order w m y3 d3 = Inr (y4, d4)"
    and g4: "grows d3 d4"
    and t4: "textsOf d4 = textsOf d3 @
      [str ''Delivery Information:'',
       str ''Type: '' @ orElse (deliveryType order) (str ''N/A'')]"
    by blast
  from paymentInformation_texts [OF assms, of order w m y4 d4]
  obtain y5 d5 where a5: "paymentInformation e order w m y4 d4 = Inr (y5, d5)"
    and g5: "grows d4 d5"
    and t5: "textsOf d5 = textsOf d4 @
      [str ''Payment Information:'',
       str ''Total Amount: OMR '' @ orElse (totalPayment order) (str ''0.000'')]
      @ (if truthy (paymentType order)
         then [str ''Payment Type: '' @ toUpperCase e (stored (paymentType order))] else [])
      @ (if positiveAmount e (advancePayment order)
         then [str ''Advance Payment: OMR '' @ stored (advancePayment order)] else [])
      @ (if positiveAmount e (balancePayment order)
         then [str ''Balance Payment: OMR '' @ stored (balancePayment order)] else [])
      @ (if positiveAmount e (discount order)
         then [str ''Discount: OMR '' @ stored (discount order)] else [])"
    by blast
  from receiptFooter_texts [OF assms, of w ht m d5]
  obtain d6 where a6: "receiptFooter e w ht m d5 = Inr d6"
    and g6: "grows d5 d6"
    and t6: "textsOf d6 = textsOf d5 @ [str ''Thank you for your order!'']"
    by blast
  have r: "receiptBody e order w ht m y d = Inr d6"
    using a1 a2 a3 a4 a5 a6 by (simp add: receiptBody_def)
  have g: "grows d d6"
    using g1 g2 g3 g4 g5 g6 by (blast intro: grows_trans)
  have t: "textsOf d6 = textsOf d @
             [str ''Receipt No: ''
                @ orElse (receiptNo order) (orElse (orderId order) (str ''N/A'')),
              str ''Date: '' @ orElse (date order) (str ''N/A''),
              str ''Time: '' @ orElse (time order) (str ''N/A''),
              str ''Customer Information:'',
              str ''Name: '' @ orElse (name order) (str ''N/A''),
              str ''Phone: '' @ orElse (phoneNumber order) (str ''N/A'')]
             @ (if truthy (address order) then [str ''Address: '' @ stored (address order)] else [])
             @ (if truthy (location order) then [str ''Location: '' @ stored (location order)]
                else [])
             @ [str ''Order Details:'',
                finalText e dd (orElse (orderDetails order) (str ''N/A'')) (Some (w - 2 * m)),
                str ''Delivery Information:'',
                str ''Type: '' @ orElse (deliveryType order) (str ''N/A''),
                str ''Payment Information:'',
                str ''Total Amount: OMR '' @ orElse (totalPayment order) (str ''0.000'')]
             @ (if truthy (paymentType order)
                then [str ''Payment Type: '' @ toUpperCase e (stored (paymentType order))] else [])
             @ (if positiveAmount e (advancePayment order)
                then [str ''Advance Payment: OMR '' @ stored (advancePayment order)] else [])
             @ (if positiveAmount e (balancePayment order)
                then [str ''Balance Payment: OMR '' @ stored (balancePayment order)] else [])
             @ (if positiveAmount e (discount order)
                then [str ''Discount: OMR '' @ stored (discount order)] else [])
             @ [str ''Thank you for your order!'']"
    unfolding t6 t5 t4 t3 t2 t1 by simp
  from r g t show ?thesis by blast
qed

lemma textsOf_initializeArabicFonts [simp]: "textsOf (initializeArabicFonts e d) = textsOf d"
  by (simp add: initializeArabicFonts_def Let_def split: option.splits)

text \<open>The receipt: the title or the image, then the sections.\<close>

lemma receipt_texts:
  assumes "reliable e"
  shows "\<exists>d dd. generateOrderReceiptPDF e order = Inr d \<and>
           textsOf d =
             (if imageFails e (initializeArabicFonts e [NewDocument Portrait])
              then [str ''RECEIPT''] else [])
             @ [str ''Receipt No: ''
                @ orElse (receiptNo order) (orElse (orderId order) (str ''N/A'')),
              str ''Date: '' @ orElse (date order) (str ''N/A''),
              str ''Time: '' @ orElse (time order) (str ''N/A''),
              str ''Customer Information:'',
              str ''Name: '' @ orElse (name order) (str ''N/A''),
              str ''Phone: '' @ orElse (phoneNumber order) (str ''N/A'')]
             @ (if truthy (address order) then [str ''Address: '' @ stored (address order)] else [])
             @ (if truthy (location order) then [str ''Location: '' @ stored (location order)]
                else [])
             @ [str ''Order Details:'',
                finalText e dd (orElse (orderDetails order) (str ''N/A''))
                  (Some (getWidth e Portrait - 2 * 15)),
                str ''Delivery Information:'',
                str ''Type: '' @ orElse (deliveryType order) (str ''N/A''),
                str ''Payment Information:'',
                str ''Total Amount: OMR '' @ orElse (totalPayment order) (str ''0.000'')]
             @ (if truthy (paymentType order)
                then [str ''Payment Type: '' @ toUpperCase e (stored (paymentType order))] else [])
             @ (if positiveAmount e (advancePayment order)
                then [str ''Advance Payment: OMR '' @ stored (advancePayment order)] else [])
             @ (if positiveAmount e (balancePayment order)
                then [str ''Balance Payment: OMR '' @ stored (balancePayment order)] else [])
             @ (if positiveAmount e (discount order)
                then [str ''Discount: OMR '' @ stored (discount order)] else [])
             @ [str ''Thank you for your order!'']"
proof -
  let ?d0 = "initializeArabicFonts e [NewDocument Portrait]"
  let ?w = "getWidth e Portrait"
  obtain y1 d1 where h: "headerImage e ?w 15 15 ?d0 = Inr (y1, d1)"
    and t1: "textsOf d1 = (if imageFails e ?d0 then [str ''RECEIPT''] else [])"
  proof (cases "imageFails e ?d0")
    case True
    from headerImage_fallback [OF assms True, of ?w 15 15] that True show ?thesis
      by simp
  next
    case False
    from headerImage_loaded [OF False, of ?w 15 15] that False show ?thesis
      by auto
  qed
  from receiptBody_texts [OF assms, of order ?w "getHeight e Portrait" 15 y1 d1]
  obtain d2 dd where "receiptBody e order ?w (getHeight e Portrait) 15 y1 d1 = Inr d2"
    and "textsOf d2 = textsOf d1 @
             [str ''Receipt No: ''
                @ orElse (receiptNo order) (orElse (orderId order) (str ''N/A'')),
              str ''Date: '' @ orElse (date order) (str ''N/A''),
              str ''Time: '' @ orElse (time order) (str ''N/A''),
              str ''Customer Information:'',
              str ''Name: '' @ orElse (name order) (str ''N/A''),
              str ''Phone: '' @ orElse (phoneNumber order) (str ''N/A'')]
             @ (if truthy (address order) then [str ''Address: '' @ stored (address order)] else [])
             @ (if truthy (location order) then [str ''Location: '' @ stored (location order)]
                else [])
             @ [str ''Order Details:'',
                finalText e dd (orElse (orderDetails order) (str ''N/A''))
                  (Some (?w - 2 * 15)),
                str ''Delivery Information:'',
                str ''Type: '' @ orElse (deliveryType order) (str ''N/A''),
                str ''Payment Information:'',
                str ''Total Amount: OMR '' @ orElse (totalPayment order) (str ''0.000'')]
             @ (if truthy (paymentType order)
                then [str ''Payment Type: '' @ toUpperCase e (stored (paymentType order))] else [])
             @ (if positiveAmount e (advancePayment order)
                then [str ''Advance Payment: OMR '' @ stored (advancePayment order)] else [])
             @ (if positiveAmount e (balancePayment order)
                then [str ''Balance Payment: OMR '' @ stored (balancePayment order)] else [])
             @ (if positiveAmount e (discount order)
                then [str ''Discount: OMR '' @ stored (discount order)] else [])
             @ [str ''Thank you for your order!'']"
    by blast
  moreover from this h have "generateOrderReceiptPDF e order = Inr d2"
    by (simp add: generateOrderReceiptPDF_def Let_def)
  ultimately show ?thesis
    unfolding t1 by blast
qed


subsection \<open>The environment of the examples\<close>

lemma imageFails_testEnv: "imageFails (testEnv p None) d"
  by (simp add: imageFails_def testEnv_def)

lemma finalText_testEnv:
  "finalText (testEnv p i) dd t (Some w) =
     (if w = 0 then t
      else (case fixedPitchSplit p t w of
              (first, others) \<Rightarrow> if others = [] then first else first @ str ''...''))"
  by (simp add: finalText_def testEnv_def split: prod.splits)

lemma split_hundred: "fixedPitchSplit 2 (replicate 100 97) 180 = (replicate 90 97, [replicate 10 97])"
  by code_simp

lemma testEnv_simps:
  "getWidth (testEnv p i) Portrait = 210"
  "getHeight (testEnv p i) Portrait = 297"
  "getWidth (testEnv p i) Landscape = 297"
  "getHeight (testEnv p i) Landscape = 210"
  "hasArabicFonts (testEnv p i) = False"
  "containsArabic (testEnv p i) = containsArabicScript"
  "getTextDirection (testEnv p i) = textDirection"
  "parseFloat (testEnv p i) = parseDecimal"
  by (simp_all add: testEnv_def)

lemma emptyOrder_simps:
  "receiptNo emptyOrder = None" "orderId emptyOrder = None" "name emptyOrder = None"
  "orderDetails emptyOrder = None" "phoneNumber emptyOrder = None"
  "deliveryType emptyOrder = None" "date emptyOrder = None" "time emptyOrder = None"
  "status emptyOrder = None" "totalPayment emptyOrder = None" "totalAmount emptyOrder = None"
  "advancePayment emptyOrder = None" "balancePayment emptyOrder = None"
  "discount emptyOrder = None" "location emptyOrder = None" "paymentType emptyOrder = None"
  "cookStatus emptyOrder = None" "address emptyOrder = None"
  by (simp_all add: emptyOrder_def)

lemma absent_simps:
  "truthy None = False" "positiveAmount e None = False" "orElse None dflt = dflt"
  by (simp_all add: truthy_def positiveAmount_def orElse_def)

subsection \<open>The order details\<close>

text \<open>
  Claim C1, as stated, fails: the receipt passes the order details to the renderer with a
  maximal width, and the renderer keeps the first line of the split text only. With glyphs
  2 mm wide, 90 of them fit the 180 mm between the margins of a portrait A4 page; of order
  details of 100 letters \<open>a\<close> the receipt shows the first 90 followed by \<open>...\<close>, and
  the full text is not among the texts of the document.
\<close>

theorem order_details_truncated_counterexample:
  "\<exists>d. generateOrderReceiptPDF (testEnv 2 None)
          (emptyOrder\<lparr>orderDetails := Some (replicate 100 97)\<rparr>) = Inr d \<and>
        textsOf d =
          [str ''RECEIPT'', str ''Receipt No: N/A'', str ''Date: N/A'', str ''Time: N/A'',
           str ''Customer Information:'', str ''Name: N/A'', str ''Phone: N/A'',
           str ''Order Details:'', replicate 90 97 @ str ''...'',
           str ''Delivery Information:'', str ''Type: N/A'', str ''Payment Information:'',
           str ''Total Amount: OMR 0.000'', str ''Thank you for your order!''] \<and>
        replicate 100 97 \<notin> set (textsOf d)"
proof -
  let ?order = "emptyOrder\<lparr>orderDetails := Some (replicate 100 97)\<rparr>"
  from receipt_texts [OF testEnv_reliable, of 2 None ?order]
  obtain d where g: "generateOrderReceiptPDF (testEnv 2 None) ?order = Inr d"
    and t: "textsOf d =
          [str ''RECEIPT'', str ''Receipt No: N/A'', str ''Date: N/A'', str ''Time: N/A'',
           str ''Customer Information:'', str ''Name: N/A'', str ''Phone: N/A'',
           str ''Order Details:'', replicate 90 97 @ str ''...'',
           str ''Delivery Information:'', str ''Type: N/A'', str ''Payment Information:'',
           str ''Total Amount: OMR 0.000'', str ''Thank you for your order!'']"
    by (auto simp: imageFails_testEnv finalText_testEnv testEnv_simps emptyOrder_simps
        absent_simps orElse_def split_hundred str_def)
  have "replicate 100 97 \<notin> set
          [str ''RECEIPT'', str ''Receipt No: N/A'', str ''Date: N/A'', str ''Time: N/A'',
           str ''Customer Information:'', str ''Name: N/A'', str ''Phone: N/A'',
           str ''Order Details:'', replicate 90 (97::nat) @ str ''...'',
           str ''Delivery Information:'', str ''Type: N/A'', str ''Payment Information:'',
           str ''Total Amount: OMR 0.000'', str ''Thank you for your order!'']"
    by code_simp
  with g t show ?thesis by simp
qed

text \<open>
  Claim C1, amended. Under an environment whose drawing calls do not throw, the receipt
  shows, between the titles \<open>Order Details:\<close> and \<open>Delivery Information:\<close>, one
  line: the order details (or \<open>N/A\<close>) as the library splits them at the page width less
  the two margins, that is the first line of the split, followed by \<open>...\<close> when the
  split gave more than one line.
\<close>

theorem order_details_first_line_only:
  assumes "reliable e"
  shows "\<exists>d pre post dd.
           generateOrderReceiptPDF e order = Inr d \<and>
           textsOf d =
             pre @
             [str ''Order Details:'',
              (let details = orElse (orderDetails order) (str ''N/A'');
                   w = getWidth e Portrait - 2 * 15
               in if w = 0 then details
                  else (case splitTextToSize e dd details w of
                          (first, others) \<Rightarrow>
                            if others = [] then first else first @ str ''...'')),
              str ''Delivery Information:'']
             @ post"
proof -
  from receipt_texts [OF assms, of order]
  obtain d dd where g: "generateOrderReceiptPDF e order = Inr d"
    and t: "textsOf d =
             ((if imageFails e (initializeArabicFonts e [NewDocument Portrait])
               then [str ''RECEIPT''] else [])
              @ [str ''Receipt No: ''
                 @ orElse (receiptNo order) (orElse (orderId order) (str ''N/A'')),
               str ''Date: '' @ orElse (date order) (str ''N/A''),
               str ''Time: '' @ orElse (time order) (str ''N/A''),
               str ''Customer Information:'',
               str ''Name: '' @ orElse (name order) (str ''N/A''),
               str ''Phone: '' @ orElse (phoneNumber order) (str ''N/A'')]
              @ (if truthy (address order) then [str ''Address: '' @ stored (address order)] else [])
              @ (if truthy (location order) then [str ''Location: '' @ stored (location order)]
                 else []))
             @ [str ''Order Details:'',
                finalText e dd (orElse (orderDetails order) (str ''N/A''))
                  (Some (getWidth e Portrait - 2 * 15)),
                str ''Delivery Information:'']
             @ ([str ''Type: '' @ orElse (deliveryType order) (str ''N/A''),
                str ''Payment Information:'',
                str ''Total Amount: OMR '' @ orElse (totalPayment order) (str ''0.000'')]
             @ (if truthy (paymentType order)
                then [str ''Payment Type: '' @ toUpperCase e (stored (paymentType order))] else [])
             @ (if positiveAmount e (advancePayment order)
                then [str ''Advance Payment: OMR '' @ stored (advancePayment order)] else [])
             @ (if positiveAmount e (balancePayment order)
                then [str ''Balance Payment: OMR '' @ stored (balancePayment order)] else [])
             @ (if positiveAmount e (discount order)
                then [str ''Discount: OMR '' @ stored (discount order)] else [])
             @ [str ''Thank you for your order!''])"
    by auto
  have f: "finalText e dd (orElse (orderDetails order) (str ''N/A''))
             (Some (getWidth e Portrait - 2 * 15)) =
           (let details = orElse (orderDetails order) (str ''N/A'');
                w = getWidth e Portrait - 2 * 15
            in if w = 0 then details
               else (case splitTextToSize e dd details w of
                       (first, others) \<Rightarrow> if others = [] then first else first @ str ''...''))"
    by (simp add: finalText_def Let_def split: prod.splits)
  from g t show ?thesis
    unfolding f by blast
qed

theorem order_details_first_line_only_witness:
  "reliable (testEnv 2 None) \<and>
   (\<exists>d pre post.
      generateOrderReceiptPDF (testEnv 2 None)
        (emptyOrder\<lparr>orderDetails := Some (replicate 100 97)\<rparr>) = Inr d \<and>
      textsOf d =
        pre @ [str ''Order Details:'', replicate 90 97 @ str ''...'',
               str ''Delivery Information:''] @ post)"
  using order_details_first_line_only [OF testEnv_reliable,
      of 2 None "emptyOrder\<lparr>orderDetails := Some (replicate 100 97)\<rparr>"]
    testEnv_reliable [of 2 None]
  by (simp add: testEnv_def orElse_def emptyOrder_def split_hundred)

subsection \<open>The payment section\<close>

lemma parse_examples:
  "parseDecimal (str ''12.500'') = Finite (25 / 2)"
  "parseDecimal (str ''0.000'') = Finite 0"
  by (simp_all add: parseDecimal_def str_def isWhiteSpace_def isDigit_def digitsValue_def
      exponentOf_def Let_def)

lemma positive_examples:
  "positiveAmount (testEnv 2 None) (Some (str ''12.500''))"
  "\<not> positiveAmount (testEnv 2 None) (Some (str ''0.000''))"
  by (simp_all add: positiveAmount_def testEnv_simps parse_examples) (simp_all add: str_def)

lemma str_append: "str a @ str b = str (a @ b)"
  by (simp add: str_def)

lemma str_empty [simp]: "str s = [] \<longleftrightarrow> s = []"
  by (simp add: str_def)

text \<open>
  Claim C6. Under an environment whose drawing calls do not throw, the texts of the
  receipt end with the payment section and the footer: the section title, the total line
  (always; \<open>0.000\<close> when no total is stored), the payment type when given, and then the
  advance, balance and discount lines, each present iff its field is a non-empty string
  that \<open>parseFloat\<close> reads as a number greater than zero (\<open>positiveAmount\<close>), each
  showing the stored string as it is after \<open>OMR \<close>.
\<close>

theorem payment_lines_shown_iff_positive:
  assumes "reliable e"
  shows "\<exists>d pre.
           generateOrderReceiptPDF e order = Inr d \<and>
           textsOf d =
             pre @
             [str ''Payment Information:'',
              str ''Total Amount: OMR '' @ orElse (totalPayment order) (str ''0.000'')]
             @ (if truthy (paymentType order)
                then [str ''Payment Type: '' @ toUpperCase e (stored (paymentType order))] else [])
             @ (if positiveAmount e (advancePayment order)
                then [str ''Advance Payment: OMR '' @ stored (advancePayment order)] else [])
             @ (if positiveAmount e (balancePayment order)
                then [str ''Balance Payment: OMR '' @ stored (balancePayment order)] else [])
             @ (if positiveAmount e (discount order)
                then [str ''Discount: OMR '' @ stored (discount order)] else [])
             @ [str ''Thank you for your order!'']"
proof -
  from receipt_texts [OF assms, of order]
  obtain d dd where g: "generateOrderReceiptPDF e order = Inr d"
    and t: "textsOf d =
             ((if imageFails e (initializeArabicFonts e [NewDocument Portrait])
               then [str ''RECEIPT''] else [])
              @ [str ''Receipt No: ''
                 @ orElse (receiptNo order) (orElse (orderId order) (str ''N/A'')),
               str ''Date: '' @ orElse (date order) (str ''N/A''),
               str ''Time: '' @ orElse (time order) (str ''N/A''),
               str ''Customer Information:'',
               str ''Name: '' @ orElse (name order) (str ''N/A''),
               str ''Phone: '' @ orElse (phoneNumber order) (str ''N/A'')]
              @ (if truthy (address order) then [str ''Address: '' @ stored (address order)] else [])
              @ (if truthy (location order) then [str ''Location: '' @ stored (location order)]
                 else [])
              @ [str ''Order Details:'',
                 finalText e dd (orElse (orderDetails order) (str ''N/A''))
                   (Some (getWidth e Portrait - 2 * 15)),
                 str ''Delivery Information:'',
                 str ''Type: '' @ orElse (deliveryType order) (str ''N/A'')])
             @ [str ''Payment Information:'',
                str ''Total Amount: OMR '' @ orElse (totalPayment order) (str ''0.000'')]
             @ (if truthy (paymentType order)
                then [str ''Payment Type: '' @ toUpperCase e (stored (paymentType order))] else [])
             @ (if positiveAmount e (advancePayment order)
                then [str ''Advance Payment: OMR '' @ stored (advancePayment order)] else [])
             @ (if positiveAmount e (balancePayment order)
                then [str ''Balance Payment: OMR '' @ stored (balancePayment order)] else [])
             @ (if positiveAmount e (discount order)
                then [str ''Discount: OMR '' @ stored (discount order)] else [])
             @ [str ''Thank you for your order!'']"
    by auto
  then show ?thesis by blast
qed

theorem payment_lines_shown_iff_positive_witness:
  "reliable (testEnv 2 None) \<and>
   (\<exists>d pre.
      generateOrderReceiptPDF (testEnv 2 None)
        (emptyOrder\<lparr>totalPayment := Some (str ''20.000''),
                    advancePayment := Some (str ''12.500'')\<rparr>) = Inr d \<and>
      textsOf d =
        pre @ [str ''Payment Information:'', str ''Total Amount: OMR 20.000'',
               str ''Advance Payment: OMR 12.500'', str ''Thank you for your order!'']) \<and>
   (\<exists>d pre.
      generateOrderReceiptPDF (testEnv 2 None)
        (emptyOrder\<lparr>totalPayment := Some (str ''20.000''),
                    advancePayment := Some (str ''0.000'')\<rparr>) = Inr d \<and>
      textsOf d =
        pre @ [str ''Payment Information:'', str ''Total Amount: OMR 20.000'',
               str ''Thank you for your order!''])"
  using payment_lines_shown_iff_positive [OF testEnv_reliable,
      of 2 None "emptyOrder\<lparr>totalPayment := Some (str ''20.000''),
                             advancePayment := Some (str ''12.500'')\<rparr>"]
    payment_lines_shown_iff_positive [OF testEnv_reliable,
      of 2 None "emptyOrder\<lparr>totalPayment := Some (str ''20.000''),
                             advancePayment := Some (str ''0.000'')\<rparr>"]
    testEnv_reliable [of 2 None]
  by (simp add: positive_examples emptyOrder_simps absent_simps orElse_def str_append)

subsection \<open>The header image\<close>

lemma headerImage_failed:
  assumes "imageFails e d"
  shows "headerImage e w m y d =
           andThen
             (addText_receipt e (str ''RECEIPT'') (w / 2) y
                \<lparr>align = Some AlignCenter, maxWidth = None, fontSize = Some 20,
                 fontStyle = Some Bold, color = None\<rparr> d)
             (\<lambda>(h, d'). Inr (y + 15, d'))"
  using assms
  by (auto simp: headerImage_def imageFails_def convertImageToBase64_def addImage_def Let_def
      split: imageLoad.splits)

lemma andThen_assoc: "andThen (andThen r f) g = andThen r (\<lambda>v. andThen (f v) g)"
  by (cases r) simp_all

text \<open>
  Claim C9. When the header image cannot be placed (the load fails, the canvas or its
  encoding fails, or the library refuses the image), \<open>generateOrderReceiptPDF\<close> is the
  run that draws the title \<open>RECEIPT\<close> and continues with the sections at height 30,
  whatever the failure was; under an environment whose drawing calls do not throw it
  returns a document, which starts with the title in bold at size 20, centred at the
  middle of the page.
\<close>

theorem image_failure_gives_text_title:
  assumes "imageFails e (initializeArabicFonts e [NewDocument Portrait])"
  shows "generateOrderReceiptPDF e order =
           andThen
             (addText_receipt e (str ''RECEIPT'') (getWidth e Portrait / 2) 15
                \<lparr>align = Some AlignCenter, maxWidth = None, fontSize = Some 20,
                 fontStyle = Some Bold, color = None\<rparr>
                (initializeArabicFonts e [NewDocument Portrait]))
             (\<lambda>(h, d). receiptBody e order (getWidth e Portrait) (getHeight e Portrait) 15
                         (15 + 15) d)
         \<and> (reliable e \<longrightarrow>
              (\<exists>d rest.
                 generateOrderReceiptPDF e order = Inr d \<and>
                 d = initializeArabicFonts e [NewDocument Portrait]
                     @ [SetFontSize 20, SetFont (chosenFont e (str ''RECEIPT'')) Bold,
                        SetTextColor 0 0 0,
                        Text (str ''RECEIPT'') (getWidth e Portrait / 2) 15 (Some AlignCenter)]
                     @ rest))"
proof -
  have first: "generateOrderReceiptPDF e order =
           andThen
             (addText_receipt e (str ''RECEIPT'') (getWidth e Portrait / 2) 15
                \<lparr>align = Some AlignCenter, maxWidth = None, fontSize = Some 20,
                 fontStyle = Some Bold, color = None\<rparr>
                (initializeArabicFonts e [NewDocument Portrait]))
             (\<lambda>(h, d). receiptBody e order (getWidth e Portrait) (getHeight e Portrait) 15
                         (15 + 15) d)"
    unfolding generateOrderReceiptPDF_def Let_def headerImage_failed [OF assms] andThen_assoc
    by (simp add: split_def)
  have second: "\<exists>d rest.
                 generateOrderReceiptPDF e order = Inr d \<and>
                 d = initializeArabicFonts e [NewDocument Portrait]
                     @ [SetFontSize 20, SetFont (chosenFont e (str ''RECEIPT'')) Bold,
                        SetTextColor 0 0 0,
                        Text (str ''RECEIPT'') (getWidth e Portrait / 2) 15 (Some AlignCenter)]
                     @ rest" if rel: "reliable e"
  proof -
  let ?d0 = "initializeArabicFonts e [NewDocument Portrait]"
  let ?d1 = "?d0 @ [SetFontSize 20, SetFont (chosenFont e (str ''RECEIPT'')) Bold,
                    SetTextColor 0 0 0,
                    Text (str ''RECEIPT'') (getWidth e Portrait / 2) 15 (Some AlignCenter)]"
  have h: "headerImage e (getWidth e Portrait) 15 15 ?d0 = Inr (15 + 15, ?d1)"
    by (rule headerImage_fallback [OF rel assms])
  from receiptBody_texts [OF rel, of order "getWidth e Portrait" "getHeight e Portrait" 15
      "15 + 15" ?d1]
  obtain d where b: "receiptBody e order (getWidth e Portrait) (getHeight e Portrait) 15
      (15 + 15) ?d1 = Inr d" and "grows ?d1 d"
    by blast
  then obtain rest where "d = ?d1 @ rest"
    by (auto simp: grows_def)
  moreover have "generateOrderReceiptPDF e order = Inr d"
    using h b by (simp add: generateOrderReceiptPDF_def Let_def)
  ultimately show ?thesis
    by auto
  qed
  from first second show ?thesis by blast
qed

theorem image_failure_gives_text_title_witness:
  "imageFails (testEnv 2 None) (initializeArabicFonts (testEnv 2 None) [NewDocument Portrait])
   \<and> reliable (testEnv 2 None)
   \<and> (\<exists>d rest.
        generateOrderReceiptPDF (testEnv 2 None) emptyOrder = Inr d \<and>
        d = [NewDocument Portrait, SetFontSize 20, SetFont Helvetica Bold, SetTextColor 0 0 0,
             Text (str ''RECEIPT'') 105 15 (Some AlignCenter)] @ rest)"
  using image_failure_gives_text_title [THEN conjunct2, rule_format,
      OF imageFails_testEnv testEnv_reliable, of 2 emptyOrder]
    testEnv_reliable [of 2 None] imageFails_testEnv [of 2]
  by (simp add: testEnv_simps initializeArabicFonts_def chosenFont_def
      containsArabicScript_def str_def)

section \<open>The cells of the table\<close>

lemma trim_unchanged:
  assumes "s \<noteq> []" and "\<not> isWhiteSpace (hd s)" and "\<not> isWhiteSpace (last s)"
  shows "trim s = s"
proof -
  from assms(1,2) have a: "dropWhile isWhiteSpace s = s"
    by (cases s) simp_all
  from assms(1,3) have "dropWhile isWhiteSpace (rev s) = rev s"
    by (cases "rev s") (simp_all add: hd_rev [symmetric])
  with a show ?thesis by (simp add: trim_def)
qed

lemma set_trim: "set (trim s) \<subseteq> set s"
  by (auto simp: trim_def dest!: set_dropWhileD)

lemma cleanCell_displayable: "list_all displayable (cleanCell cell)"
proof -
  have "set (cleanCell cell) \<subseteq> set (map (\<lambda>c. if displayable c then c else 32) cell)"
    unfolding cleanCell_def by (rule set_trim)
  moreover have "displayable 32" by (simp add: displayable_def)
  ultimately show ?thesis by (auto simp: list_all_iff)
qed

lemma displayable_not_space: "displayable c \<Longrightarrow> c \<noteq> 32 \<Longrightarrow> \<not> isWhiteSpace c"
  by (auto simp: displayable_def isWhiteSpace_def)

lemma cleanCell_unchanged:
  assumes "list_all displayable s" and "s \<noteq> []" and "hd s \<noteq> 32" and "last s \<noteq> 32"
  shows "cleanCell s = s"
proof -
  from assms(1) have m: "map (\<lambda>c. if displayable c then c else 32) s = s"
    by (induction s) simp_all
  from assms(1,2) have "displayable (hd s)" "displayable (last s)"
    by (simp_all add: list_all_iff)
  with assms(3,4) have "\<not> isWhiteSpace (hd s)" "\<not> isWhiteSpace (last s)"
    by (simp_all add: displayable_not_space)
  with assms(2) m show ?thesis
    by (simp add: cleanCell_def trim_unchanged)
qed

lemma drawRowCells_texts:
  assumes "reliable e"
  shows "\<exists>x' d' ts. drawRowCells e cfg order sy cols x d = Inr (x', d') \<and>
           textsOf d' = textsOf d @ ts \<and>
           list_all2 (\<lambda>c t. \<exists>dd. t = finalText e dd (cellText e c order) (Some (width c - 4)))
             cols ts"
proof (induction cols arbitrary: x d)
  case Nil
  then show ?case by simp
next
  case (Cons col cols)
  let ?d1 = "d @ [Line x (sy - 2) x (sy + rowHeight - 2)]"
  let ?d2 = "setTextColor (colors_text cfg)
               (?d1 @ [SetFontSize (fonts_body cfg - 1),
                       SetFont (chosenFont e (cellText e col order)) Normal])"
  let ?t = "finalText e ?d2 (cellText e col order) (Some (width col - 4))"
  obtain px al where a: "addText e cfg (cellText e col order)
      (case col_align col of
         Some AlignCenter \<Rightarrow> x + width col / 2
       | Some AlignRight \<Rightarrow> x + width col - 2
       | _ \<Rightarrow> x + 2) (sy + 3)
      \<lparr>align = Some (case col_align col of None \<Rightarrow> AlignLeft | Some a \<Rightarrow> a),
       maxWidth = Some (width col - 4), fontSize = Some (fonts_body cfg - 1),
       fontStyle = None, color = Some (colors_text cfg)\<rparr> ?d1
      = Inr ((fonts_body cfg - 1) * (35 / 100), ?d2 @ [Text ?t px (sy + 3) al])"
    by (simp add: addText_reliable [OF assms] Let_def)
  from Cons.IH [of "x + width col" "?d2 @ [Text ?t px (sy + 3) al]"]
  obtain x' d' ts where r: "drawRowCells e cfg order sy cols (x + width col)
      (?d2 @ [Text ?t px (sy + 3) al]) = Inr (x', d')"
    and t: "textsOf d' = textsOf (?d2 @ [Text ?t px (sy + 3) al]) @ ts"
    and l: "list_all2 (\<lambda>c t. \<exists>dd. t = finalText e dd (cellText e c order) (Some (width c - 4)))
              cols ts"
    by blast
  have "drawRowCells e cfg order sy (col # cols) x d = Inr (x', d')"
    using a r by (simp add: Let_def)
  moreover have "textsOf d' = textsOf d @ (?t # ts)"
    using t by simp
  moreover have "list_all2 (\<lambda>c t. \<exists>dd. t = finalText e dd (cellText e c order) (Some (width c - 4)))
      (col # cols) (?t # ts)"
    using l by auto
  ultimately show ?case by blast
qed

lemma textsOf_setFillColor [simp]: "textsOf (setFillColor c d) = textsOf d"
  by (cases c) (simp add: setFillColor_def)

lemma textsOf_setDrawColor [simp]: "textsOf (setDrawColor c d) = textsOf d"
  by (cases c) (simp add: setDrawColor_def)

lemma drawTableRow_texts:
  assumes "reliable e"
  shows "\<exists>y' d' ts. drawTableRow e cfg order sy alt d = Inr (y', d') \<and>
           textsOf d' = textsOf d @ ts \<and>
           list_all2 (\<lambda>c t. \<exists>dd. t = finalText e dd (cellText e c order) (Some (width c - 4)))
             columns ts"
proof -
  let ?d1 = "if alt then setFillColor (colors_alternateRow cfg) d
                          @ [RectF (margin cfg) (sy - 2) tableWidth rowHeight]
             else d"
  let ?d2 = "setDrawColor (colors_border cfg) ?d1 @ [SetLineWidth (1 / 10)]"
  from drawRowCells_texts [OF assms, of cfg order sy columns "margin cfg" ?d2]
  obtain x' d' ts where r: "drawRowCells e cfg order sy columns (margin cfg) ?d2 = Inr (x', d')"
    and t: "textsOf d' = textsOf ?d2 @ ts"
    and l: "list_all2 (\<lambda>c t. \<exists>dd. t = finalText e dd (cellText e c order) (Some (width c - 4)))
              columns ts"
    by blast
  have "drawTableRow e cfg order sy alt d =
      Inr (sy + rowHeight,
           d' @ [Line x' (sy - 2) x' (sy + rowHeight - 2),
                 Line (margin cfg) (sy + rowHeight - 2) x' (sy + rowHeight - 2)])"
    using r by (simp add: drawTableRow_def Let_def)
  moreover have "textsOf (d' @ [Line x' (sy - 2) x' (sy + rowHeight - 2),
                 Line (margin cfg) (sy + rowHeight - 2) x' (sy + rowHeight - 2)])
      = textsOf d @ ts"
    using t by simp
  ultimately show ?thesis
    using l by blast
qed

lemma chunk_fits: "length cur + length t \<le> n \<Longrightarrow> chunk n cur t = [rev cur @ t]"
  by (induction t arbitrary: cur) simp_all

lemma finalText_testEnv_fits:
  assumes "w \<noteq> 0" and "length t \<le> nat \<lfloor>w / p\<rfloor>"
  shows "finalText (testEnv p i) dd t (Some w) = t"
  using assms by (simp add: finalText_testEnv fixedPitchSplit_def chunk_fits)

lemma replicate_numeral: "replicate (numeral k) x = x # replicate (pred_numeral k) x"
  by (simp add: numeral_eq_Suc)

lemma cellData_name: "v \<noteq> [] \<Longrightarrow> cellData e K_name (emptyOrder\<lparr>name := Some v\<rparr>) = v"
  by (simp add: cellData_def valueOr_def ofString_def isString_def)

lemma column_simps:
  "columns ! 0 = \<lparr>header = str ''Receipt No'', dataKey = K_receiptNo, width = 28, col_align = None\<rparr>"
  "columns ! 1 = \<lparr>header = str ''Customer'', dataKey = K_name, width = 32, col_align = None\<rparr>"
  "columns ! Suc 0
     = \<lparr>header = str ''Customer'', dataKey = K_name, width = 32, col_align = None\<rparr>"
  by (simp_all add: columns_def)

lemma cell_examples:
  "cellText (testEnv 2 None) (columns ! 1) (emptyOrder\<lparr>name := Some (32 # replicate 39 97)\<rparr>)
     = replicate 26 97 @ str ''...''"
  "take 27 (32 # replicate 39 (97::nat)) @ str ''...'' \<noteq> replicate 26 97 @ str ''...''"
  "cellText (testEnv (1 / 2) None) (columns ! 1) (emptyOrder\<lparr>name := Some (replicate 40 97)\<rparr>)
     = replicate 27 97 @ str ''...''"
  by (simp_all add: cellText_def column_simps cellData_name truncateCell_def cleanCell_def
      trim_def displayable_def isWhiteSpace_def str_def replicate_numeral)


lemma length_trim: "length (trim s) \<le> length s"
proof -
  have "length (trim s) \<le> length (dropWhile isWhiteSpace s)"
    unfolding trim_def length_rev
    using length_dropWhile_le [of isWhiteSpace "rev (dropWhile isWhiteSpace s)"] by simp
  also have "\<dots> \<le> length s"
    by (rule length_dropWhile_le)
  finally show ?thesis .
qed

lemma length_cellText: "length (cellText e col order) \<le> 30"
proof -
  have "length (truncateCell (cellData e (dataKey col) order)) \<le> 30"
    by (simp add: truncateCell_def str_def)
  with length_trim [of "map (\<lambda>c. if displayable c then c else 32)
      (truncateCell (cellData e (dataKey col) order))"]
  show ?thesis
    by (simp add: cellText_def cleanCell_def)
qed

text \<open>With glyphs half a millimetre wide every cell text fits its column.\<close>

lemma row_texts_fit:
  assumes "list_all2
             (\<lambda>c t. \<exists>dd. t = finalText (testEnv (1 / 2) i) dd (cellText (testEnv (1 / 2) i) c order)
                                (Some (width c - 4)))
             columns ts"
  shows "ts = map (\<lambda>c. cellText (testEnv (1 / 2) i) c order) columns"
proof -
  have fits: "finalText (testEnv (1 / 2) i) dd (cellText (testEnv (1 / 2) i) c order)
                (Some (width c - 4)) = cellText (testEnv (1 / 2) i) c order"
    if c: "c \<in> set columns" for c dd
  proof -
    from c have "width c - 4 \<noteq> 0 \<and> 30 \<le> nat \<lfloor>(width c - 4) / (1 / 2)\<rfloor>"
      by (auto simp: columns_def)
    with length_cellText [of "testEnv (1 / 2) i" c order] show ?thesis
      by (intro finalText_testEnv_fits) auto
  qed
  from assms have "list_all2 (\<lambda>c t. t = cellText (testEnv (1 / 2) i) c order) columns ts"
    by (rule list.rel_mono_strong) (auto simp: fits)
  then show ?thesis
    by (simp add: list_all2_conv_all_nth list_eq_iff_nth_eq)
qed

lemma absent_cells:
  assumes "receiptNo order = None" and "orderId order = None" and "orderDetails order = None"
    and "phoneNumber order = None" and "deliveryType order = None" and "date order = None"
    and "time order = None"
  shows "map (\<lambda>c. cellText e c order) columns =
           [str ''N/A'', cellText e (columns ! 1) order, str ''N/A'', str ''N/A'', str ''N/A'',
            str ''N/A'', str ''N/A'']"
  using assms
  by (simp add: columns_def cellText_def cellData_def valueOr_def ofString_def isString_def
      orElse_def truncateCell_def cleanCell_def trim_def displayable_def isWhiteSpace_def
      str_def)

lemma displayable_dots: "list_all displayable (str ''...'')"
  by (simp add: str_def displayable_def)

text \<open>
  Claim C4, as stated, fails: the cut to 27 code units is followed by the cleaning of the
  cell, which trims it. A customer name of a space and 39 letters \<open>a\<close> reaches the
  renderer as 26 letters and \<open>...\<close>, not as its first 27 code units and \<open>...\<close>.
\<close>

theorem leading_space_cell_counterexample:
  "length (32 # replicate 39 (97::nat)) = 40
   \<and> cellData (testEnv 2 None) K_name (emptyOrder\<lparr>name := Some (32 # replicate 39 97)\<rparr>)
       = 32 # replicate 39 97
   \<and> cellText (testEnv 2 None) (columns ! 1) (emptyOrder\<lparr>name := Some (32 # replicate 39 97)\<rparr>)
       = replicate 26 97 @ str ''...''
   \<and> cellText (testEnv 2 None) (columns ! 1) (emptyOrder\<lparr>name := Some (32 # replicate 39 97)\<rparr>)
       \<noteq> take 27 (32 # replicate 39 97) @ str ''...''"
proof -
  have a: "cellText (testEnv 2 None) (columns ! 1)
             (emptyOrder\<lparr>name := Some (32 # replicate 39 97)\<rparr>)
           = replicate 26 97 @ str ''...''"
    by (rule cell_examples(1))
  have b: "replicate 26 (97::nat) @ str ''...'' \<noteq> take 27 (32 # replicate 39 97) @ str ''...''"
    using cell_examples(2) by simp
  show ?thesis
    unfolding a using b by (simp add: cellData_name)
qed

text \<open>
  Claim C4, amended. A cell value of more than 30 code units is cut to its first 27,
  followed by three full stops, and then cleaned: code units outside printable ASCII and
  the Arabic block become spaces, and the result is trimmed. When the first 27 code units
  are all printable ASCII or Arabic and the first is not a space, the text handed to the
  renderer is exactly these 27 followed by \<open>...\<close>. Under an environment whose drawing
  calls do not throw, the renderer draws for each column of a row the cell text as the
  library splits it at the column width less 4: its first line, with \<open>...\<close> again when
  there are more.
\<close>

theorem long_cell_is_cut_then_cleaned:
  assumes "length (cellData e (dataKey col) order) > 30"
  shows "cellText e col order
           = cleanCell (take 27 (cellData e (dataKey col) order) @ str ''...'')
       \<and> (list_all displayable (take 27 (cellData e (dataKey col) order))
            \<and> hd (cellData e (dataKey col) order) \<noteq> 32
            \<longrightarrow> cellText e col order = take 27 (cellData e (dataKey col) order) @ str ''...'')
       \<and> (reliable e \<longrightarrow>
            (\<exists>y' d' ts.
               drawTableRow e cfg order sy alt d = Inr (y', d') \<and>
               textsOf d' = textsOf d @ ts \<and>
               list_all2
                 (\<lambda>c t. \<exists>dd. t = finalText e dd (cellText e c order) (Some (width c - 4)))
                 columns ts))"
proof -
  let ?v = "cellData e (dataKey col) order"
  have a: "cellText e col order = cleanCell (take 27 ?v @ str ''...'')"
    using assms by (simp add: cellText_def truncateCell_def)
  have b: "cellText e col order = take 27 ?v @ str ''...''"
    if "list_all displayable (take 27 ?v) \<and> hd ?v \<noteq> 32"
  proof -
    from assms have ne: "?v \<noteq> []" by auto
    have "cleanCell (take 27 ?v @ str ''...'') = take 27 ?v @ str ''...''"
    proof (rule cleanCell_unchanged)
      show "list_all displayable (take 27 ?v @ str ''...'')"
        using that displayable_dots by simp
      show "take 27 ?v @ str ''...'' \<noteq> []"
        by (simp add: str_def)
      show "hd (take 27 ?v @ str ''...'') \<noteq> 32"
        using that ne by (cases ?v) simp_all
      show "last (take 27 ?v @ str ''...'') \<noteq> 32"
        by (simp add: str_def)
    qed
    with a show ?thesis by simp
  qed
  from a b drawTableRow_texts [of e cfg order sy alt d] show ?thesis
    by blast
qed

theorem long_cell_is_cut_then_cleaned_witness:
  "length (cellData (testEnv (1 / 2) None) (dataKey (columns ! 1))
             (emptyOrder\<lparr>name := Some (replicate 40 97)\<rparr>)) > 30
   \<and> cellText (testEnv (1 / 2) None) (columns ! 1) (emptyOrder\<lparr>name := Some (replicate 40 97)\<rparr>)
       = replicate 27 97 @ str ''...''
   \<and> (\<exists>y' d'.
        drawTableRow (testEnv (1 / 2) None) (config (testEnv (1 / 2) None))
          (emptyOrder\<lparr>name := Some (replicate 40 97)\<rparr>) 60 False [] = Inr (y', d') \<and>
        textsOf d' =
          [str ''N/A'', replicate 27 97 @ str ''...'', str ''N/A'', str ''N/A'', str ''N/A'',
           str ''N/A'', str ''N/A''])"
proof -
  let ?e = "testEnv (1 / 2) None"
  let ?order = "emptyOrder\<lparr>name := Some (replicate 40 97)\<rparr>"
  have len: "length (cellData ?e (dataKey (columns ! 1)) ?order) > 30"
    by (simp add: column_simps cellData_name)
  have dis: "list_all displayable (take 27 (cellData ?e (dataKey (columns ! 1)) ?order))
      \<and> hd (cellData ?e (dataKey (columns ! 1)) ?order) \<noteq> 32"
    by (simp add: column_simps cellData_name replicate_numeral displayable_def)
  note inst = long_cell_is_cut_then_cleaned [OF len, of "config ?e" 60 False "[]"]
  from inst [THEN conjunct2, THEN conjunct1, rule_format, OF dis] have c1: "cellText ?e (columns ! 1) ?order = replicate 27 97 @ str ''...''"
    by (simp add: column_simps cellData_name)
  from inst [THEN conjunct2, THEN conjunct2, rule_format, OF testEnv_reliable]
  obtain y' d' ts where r: "drawTableRow ?e (config ?e) ?order 60 False [] = Inr (y', d')"
    and t: "textsOf d' = ts"
    and l: "list_all2
              (\<lambda>c t. \<exists>dd. t = finalText ?e dd (cellText ?e c ?order) (Some (width c - 4)))
              columns ts"
    by auto
  from row_texts_fit [OF l] have "ts = map (\<lambda>c. cellText ?e c ?order) columns" .
  also have "\<dots> = [str ''N/A'', replicate 27 97 @ str ''...'', str ''N/A'', str ''N/A'',
      str ''N/A'', str ''N/A'', str ''N/A'']"
    unfolding c1 [symmetric] by (rule absent_cells) (simp_all add: emptyOrder_def)
  finally show ?thesis
    using len c1 r t by simp
qed


text \<open>
  Claim C8, as stated, fails: the renderer strips nothing, and only the table cleans its
  cells. The receipt of a customer named \<open>Jos\<close> followed by U+00E9 shows the name as it
  is, with a code unit that is neither printable ASCII nor Arabic.
\<close>

theorem receipt_text_not_cleaned_counterexample:
  "\<exists>d. generateOrderReceiptPDF (testEnv 2 None) (emptyOrder\<lparr>name := Some [74, 111, 115, 233]\<rparr>)
          = Inr d \<and>
        str ''Name: '' @ [74, 111, 115, 233] \<in> set (textsOf d) \<and>
        \<not> displayable 233"
proof -
  from receipt_texts [OF testEnv_reliable, of 2 None "emptyOrder\<lparr>name := Some [74, 111, 115, 233]\<rparr>"]
  obtain d where "generateOrderReceiptPDF (testEnv 2 None)
      (emptyOrder\<lparr>name := Some [74, 111, 115, 233]\<rparr>) = Inr d"
    and "str ''Name: '' @ [74, 111, 115, 233] \<in> set (textsOf d)"
    by (auto simp: orElse_def)
  then show ?thesis
    by (auto simp: displayable_def)
qed

text \<open>
  Claim C8, amended. In the table of the report every cell text is cleaned before it is
  handed to the renderer: each code unit outside printable ASCII (0x20-0x7E) and the
  Arabic block (0x0600-0x06FF) is replaced by a space, not removed, and the result is
  trimmed, so the text handed over has code units of these two ranges only. Under an
  environment whose drawing calls do not throw, the texts drawn for a row are these cell
  texts as the library splits them at the column width less 4. The renderer itself, the
  header of the report and the receipt clean nothing.
\<close>

theorem table_cells_are_cleaned:
  "cellText e col order
     = trim (map (\<lambda>c. if displayable c then c else 32)
               (truncateCell (cellData e (dataKey col) order)))
   \<and> list_all displayable (cellText e col order)
   \<and> (reliable e \<longrightarrow>
        (\<exists>y' d' ts.
           drawTableRow e cfg order sy alt d = Inr (y', d') \<and>
           textsOf d' = textsOf d @ ts \<and>
           list_all2
             (\<lambda>c t. \<exists>dd. t = finalText e dd (cellText e c order) (Some (width c - 4)))
             columns ts))"
  using cleanCell_displayable [of "truncateCell (cellData e (dataKey col) order)"]
    drawTableRow_texts [of e cfg order sy alt d]
  by (simp add: cellText_def cleanCell_def)

theorem table_cells_are_cleaned_witness:
  "cellText (testEnv (1 / 2) None) (columns ! 1)
     (emptyOrder\<lparr>name := Some [74, 111, 115, 233, 32, 65, 108, 105]\<rparr>) = str ''Jos  Ali''
   \<and> list_all displayable (str ''Jos  Ali'')
   \<and> (\<exists>y' d'.
        drawTableRow (testEnv (1 / 2) None) (config (testEnv (1 / 2) None))
          (emptyOrder\<lparr>name := Some [74, 111, 115, 233, 32, 65, 108, 105]\<rparr>) 60 False []
          = Inr (y', d') \<and>
        textsOf d' =
          [str ''N/A'', str ''Jos  Ali'', str ''N/A'', str ''N/A'', str ''N/A'', str ''N/A'',
           str ''N/A''])"
proof -
  let ?e = "testEnv (1 / 2) None"
  let ?order = "emptyOrder\<lparr>name := Some [74, 111, 115, 233, 32, 65, 108, 105]\<rparr>"
  note inst = table_cells_are_cleaned [of ?e "columns ! 1" ?order "config ?e" 60 False "[]"]
  have c1: "cellText ?e (columns ! 1) ?order = str ''Jos  Ali''"
    unfolding inst [THEN conjunct1]
    by (simp add: column_simps cellData_name truncateCell_def trim_def displayable_def
        isWhiteSpace_def str_def)
  from inst [THEN conjunct2, THEN conjunct1] have c2: "list_all displayable (str ''Jos  Ali'')"
    unfolding c1 .
  from inst [THEN conjunct2, THEN conjunct2, rule_format, OF testEnv_reliable]
  obtain y' d' ts where r: "drawTableRow ?e (config ?e) ?order 60 False [] = Inr (y', d')"
    and t: "textsOf d' = ts"
    and l: "list_all2
              (\<lambda>c t. \<exists>dd. t = finalText ?e dd (cellText ?e c ?order) (Some (width c - 4)))
              columns ts"
    by auto
  from row_texts_fit [OF l] have "ts = map (\<lambda>c. cellText ?e c ?order) columns" .
  also have "\<dots> = [str ''N/A'', str ''Jos  Ali'', str ''N/A'', str ''N/A'', str ''N/A'',
      str ''N/A'', str ''N/A'']"
    unfolding c1 [symmetric] by (rule absent_cells) (simp_all add: emptyOrder_def)
  finally show ?thesis
    using c1 c2 r t by simp
qed

section \<open>The receipt number\<close>

lemma downloadOrderReceipt_saved:
  assumes "generateOrderReceiptPDF e order = Inr d"
    and "saveThrows e d (receiptFileName order) = None"
  shows "downloadOrderReceipt e order = Inr (receiptFileName order, d)"
  using assms by (simp add: downloadOrderReceipt_def Let_def)

lemma clean_NA: "cleanCell (truncateCell (str ''N/A'')) = str ''N/A''"
  by (simp add: truncateCell_def cleanCell_def trim_def displayable_def isWhiteSpace_def
      str_def)

lemma cellText_without_receiptNo:
  assumes "receiptNo order = None"
  shows "cellText e c order =
           (if dataKey c = K_receiptNo
            then cleanCell (truncateCell
                   (case orderId order of
                      None \<Rightarrow> str ''N/A''
                    | Some s \<Rightarrow> if s = [] then str ''N/A'' else s))
            else if field (dataKey c) order = Undefined then str ''N/A''
            else cleanCell (truncateCell (cellData e (dataKey c) order)))"
  using assms
  by (auto simp: cellText_def cellData_def orElse_def ofString_def isString_def valueOr_def
      clean_NA split: option.splits)

text \<open>With glyphs of any fixed width, texts that fit their columns are drawn as they
  are.\<close>

lemma texts_fit:
  assumes "list_all2
             (\<lambda>c t. \<exists>dd. t = finalText (testEnv p i) dd (g c) (Some (width c - 4))) columns ts"
    and "\<And>c. c \<in> set columns \<Longrightarrow> length (g c) \<le> nat \<lfloor>(width c - 4) / p\<rfloor>"
  shows "ts = map g columns"
proof -
  have fits: "finalText (testEnv p i) dd (g c) (Some (width c - 4)) = g c"
    if c: "c \<in> set columns" for c dd
  proof -
    from c have "width c - 4 \<noteq> 0"
      by (auto simp: columns_def)
    with assms(2) [OF c] show ?thesis
      by (intro finalText_testEnv_fits) auto
  qed
  from assms(1) have "list_all2 (\<lambda>c t. t = g c) columns ts"
    by (rule list.rel_mono_strong) (auto simp: fits)
  then show ?thesis
    by (simp add: list_all2_conv_all_nth list_eq_iff_nth_eq)
qed

text \<open>
  Claim C10. For an order without receipt number: the cell of the receipt-number column
  holds the order identifier, or \<open>N/A\<close> when that is absent or empty too, and the cell of
  every other column whose field is absent holds \<open>N/A\<close>; under an environment whose
  drawing calls do not throw, \<open>drawTableRow\<close> draws for the receipt-number column the
  order identifier (or \<open>N/A\<close>), cut and cleaned as every cell, and \<open>N/A\<close> for every
  column whose field is absent, each as the library splits it at the column width less 4;
  the receipt shows \<open>Receipt No: \<close> with the same chain, and \<open>N/A\<close> for an absent
  date, time, name and phone number; the file that \<open>downloadOrderReceipt\<close> saves is
  named with the order identifier, or with the word \<open>receipt\<close> when there is none.
\<close>

theorem receipt_number_falls_back_to_order_id:
  assumes "receiptNo order = None"
  shows "cellData e K_receiptNo order
           = (case orderId order of
                None \<Rightarrow> str ''N/A''
              | Some s \<Rightarrow> if s = [] then str ''N/A'' else s)
       \<and> (\<forall>k. k \<noteq> K_receiptNo \<and> field k order = Undefined
              \<longrightarrow> cellData e k order = str ''N/A'')
       \<and> receiptFileName order
           = str ''receipt-''
             @ (case orderId order of
                  None \<Rightarrow> str ''receipt''
                | Some s \<Rightarrow> if s = [] then str ''receipt'' else s)
             @ str ''-'' @ sanitizedName (orElse (name order) (str ''customer'')) @ str ''.pdf''
       \<and> (reliable e \<longrightarrow>
            (\<exists>d post.
               generateOrderReceiptPDF e order = Inr d \<and>
               textsOf d =
                 (if imageFails e (initializeArabicFonts e [NewDocument Portrait])
                  then [str ''RECEIPT''] else [])
                 @ [str ''Receipt No: ''
                      @ (case orderId order of
                           None \<Rightarrow> str ''N/A''
                         | Some s \<Rightarrow> if s = [] then str ''N/A'' else s),
                    str ''Date: '' @ orElse (date order) (str ''N/A''),
                    str ''Time: '' @ orElse (time order) (str ''N/A''),
                    str ''Customer Information:'',
                    str ''Name: '' @ orElse (name order) (str ''N/A''),
                    str ''Phone: '' @ orElse (phoneNumber order) (str ''N/A'')]
                 @ post \<and>
               (saveThrows e d (receiptFileName order) = None \<longrightarrow>
                  downloadOrderReceipt e order = Inr (receiptFileName order, d))))
       \<and> (reliable e \<longrightarrow>
            (\<exists>y' d' ts.
               drawTableRow e cfg order sy alt doc0 = Inr (y', d') \<and>
               textsOf d' = textsOf doc0 @ ts \<and>
               list_all2
                 (\<lambda>c t. \<exists>dd. t =
                    finalText e dd
                      (if dataKey c = K_receiptNo
                       then cleanCell (truncateCell
                              (case orderId order of
                                 None \<Rightarrow> str ''N/A''
                               | Some s \<Rightarrow> if s = [] then str ''N/A'' else s))
                       else if field (dataKey c) order = Undefined then str ''N/A''
                       else cleanCell (truncateCell (cellData e (dataKey c) order)))
                      (Some (width c - 4)))
                 columns ts))"
proof -
  have chain: "\<And>dflt. orElse (receiptNo order) (orElse (orderId order) dflt)
      = (case orderId order of None \<Rightarrow> dflt | Some s \<Rightarrow> if s = [] then dflt else s)"
    using assms by (simp add: orElse_def split: option.splits)
  have a: "cellData e K_receiptNo order
           = (case orderId order of
                None \<Rightarrow> str ''N/A''
              | Some s \<Rightarrow> if s = [] then str ''N/A'' else s)"
    using assms
    by (simp add: cellData_def orElse_def ofString_def isString_def split: option.splits)
  have b: "\<forall>k. k \<noteq> K_receiptNo \<and> field k order = Undefined
              \<longrightarrow> cellData e k order = str ''N/A''"
    by (simp add: cellData_def isString_def valueOr_def)
  have c: "receiptFileName order
           = str ''receipt-''
             @ (case orderId order of
                  None \<Rightarrow> str ''receipt''
                | Some s \<Rightarrow> if s = [] then str ''receipt'' else s)
             @ str ''-'' @ sanitizedName (orElse (name order) (str ''customer'')) @ str ''.pdf''"
    by (simp add: receiptFileName_def chain Let_def)
  have d: "\<exists>d post.
               generateOrderReceiptPDF e order = Inr d \<and>
               textsOf d =
                 (if imageFails e (initializeArabicFonts e [NewDocument Portrait])
                  then [str ''RECEIPT''] else [])
                 @ [str ''Receipt No: ''
                      @ (case orderId order of
                           None \<Rightarrow> str ''N/A''
                         | Some s \<Rightarrow> if s = [] then str ''N/A'' else s),
                    str ''Date: '' @ orElse (date order) (str ''N/A''),
                    str ''Time: '' @ orElse (time order) (str ''N/A''),
                    str ''Customer Information:'',
                    str ''Name: '' @ orElse (name order) (str ''N/A''),
                    str ''Phone: '' @ orElse (phoneNumber order) (str ''N/A'')]
                 @ post \<and>
               (saveThrows e d (receiptFileName order) = None \<longrightarrow>
                  downloadOrderReceipt e order = Inr (receiptFileName order, d))"
    if rel: "reliable e"
  proof -
    from receipt_texts [OF rel, of order]
    obtain d post where g: "generateOrderReceiptPDF e order = Inr d"
      and t: "textsOf d =
                 (if imageFails e (initializeArabicFonts e [NewDocument Portrait])
                  then [str ''RECEIPT''] else [])
                 @ [str ''Receipt No: ''
                      @ orElse (receiptNo order) (orElse (orderId order) (str ''N/A'')),
                    str ''Date: '' @ orElse (date order) (str ''N/A''),
                    str ''Time: '' @ orElse (time order) (str ''N/A''),
                    str ''Customer Information:'',
                    str ''Name: '' @ orElse (name order) (str ''N/A''),
                    str ''Phone: '' @ orElse (phoneNumber order) (str ''N/A'')]
                 @ post"
      by auto
    note t' = t [unfolded chain]
    show ?thesis
      apply (rule exI [of _ d])
      apply (rule exI [of _ post])
      using g t' downloadOrderReceipt_saved [OF g] apply simp
      done
  qed
  have r: "\<exists>y' d' ts.
               drawTableRow e cfg order sy alt doc0 = Inr (y', d') \<and>
               textsOf d' = textsOf doc0 @ ts \<and>
               list_all2
                 (\<lambda>c t. \<exists>dd. t =
                    finalText e dd
                      (if dataKey c = K_receiptNo
                       then cleanCell (truncateCell
                              (case orderId order of
                                 None \<Rightarrow> str ''N/A''
                               | Some s \<Rightarrow> if s = [] then str ''N/A'' else s))
                       else if field (dataKey c) order = Undefined then str ''N/A''
                       else cleanCell (truncateCell (cellData e (dataKey c) order)))
                      (Some (width c - 4)))
                 columns ts"
    if rel: "reliable e"
    using drawTableRow_texts [OF rel, of cfg order sy alt doc0]
    unfolding cellText_without_receiptNo [OF assms] .
  from a b c d r show ?thesis by blast
qed

theorem receipt_number_falls_back_to_order_id_witness:
  "receiptNo (emptyOrder\<lparr>orderId := Some (str ''ORD-7'')\<rparr>) = None
   \<and> cellData (testEnv 2 None) K_receiptNo (emptyOrder\<lparr>orderId := Some (str ''ORD-7'')\<rparr>)
       = str ''ORD-7''
   \<and> cellData (testEnv 2 None) K_name (emptyOrder\<lparr>orderId := Some (str ''ORD-7'')\<rparr>)
       = str ''N/A''
   \<and> receiptFileName (emptyOrder\<lparr>orderId := Some (str ''ORD-7'')\<rparr>)
       = str ''receipt-ORD-7-customer.pdf''
   \<and> (\<exists>d post.
        generateOrderReceiptPDF (testEnv 2 None) (emptyOrder\<lparr>orderId := Some (str ''ORD-7'')\<rparr>)
          = Inr d \<and>
        textsOf d =
          [str ''RECEIPT'', str ''Receipt No: ORD-7'', str ''Date: N/A'', str ''Time: N/A'',
           str ''Customer Information:'', str ''Name: N/A'', str ''Phone: N/A''] @ post \<and>
        downloadOrderReceipt (testEnv 2 None) (emptyOrder\<lparr>orderId := Some (str ''ORD-7'')\<rparr>)
          = Inr (str ''receipt-ORD-7-customer.pdf'', d))
   \<and> (\<exists>y' d'.
        drawTableRow (testEnv 2 None) (config (testEnv 2 None))
          (emptyOrder\<lparr>orderId := Some (str ''ORD-7'')\<rparr>) 60 False [] = Inr (y', d') \<and>
        textsOf d' =
          [str ''ORD-7'', str ''N/A'', str ''N/A'', str ''N/A'', str ''N/A'', str ''N/A'',
           str ''N/A''])"
proof -
  let ?e = "testEnv 2 None"
  let ?order = "emptyOrder\<lparr>orderId := Some (str ''ORD-7'')\<rparr>"
  let ?g = "\<lambda>c. if dataKey c = K_receiptNo
                then cleanCell (truncateCell
                       (case orderId ?order of
                          None \<Rightarrow> str ''N/A''
                        | Some s \<Rightarrow> if s = [] then str ''N/A'' else s))
                else if field (dataKey c) ?order = Undefined then str ''N/A''
                else cleanCell (truncateCell (cellData ?e (dataKey c) ?order))"
  have r: "receiptNo ?order = None"
    by (simp add: emptyOrder_def)
  have n: "field K_name ?order = Undefined"
    by (simp add: emptyOrder_def ofString_def)
  have s: "sanitizedName (str ''customer'') = str ''customer''"
    by (simp add: sanitizedName_def str_def isAlphaNumeric_def isWhiteSpace_def)
  have sv: "\<And>d f. saveThrows ?e d f = None"
    by (simp add: testEnv_def)
  note inst = receipt_number_falls_back_to_order_id [OF r, where e = ?e
      and cfg = "config ?e" and sy = 60 and alt = False and ?doc0.0 = "[]"]
  note A = inst [THEN conjunct1]
    and B = inst [THEN conjunct2, THEN conjunct1]
    and C = inst [THEN conjunct2, THEN conjunct2, THEN conjunct1]
    and D = inst [THEN conjunct2, THEN conjunct2, THEN conjunct2, THEN conjunct1]
    and E = inst [THEN conjunct2, THEN conjunct2, THEN conjunct2, THEN conjunct2]
  from A B C D testEnv_reliable [of 2 None] n r s sv
  have first: "receiptNo ?order = None
   \<and> cellData ?e K_receiptNo ?order = str ''ORD-7''
   \<and> cellData ?e K_name ?order = str ''N/A''
   \<and> receiptFileName ?order = str ''receipt-ORD-7-customer.pdf''
   \<and> (\<exists>d post.
        generateOrderReceiptPDF ?e ?order = Inr d \<and>
        textsOf d =
          [str ''RECEIPT'', str ''Receipt No: ORD-7'', str ''Date: N/A'', str ''Time: N/A'',
           str ''Customer Information:'', str ''Name: N/A'', str ''Phone: N/A''] @ post \<and>
        downloadOrderReceipt ?e ?order = Inr (str ''receipt-ORD-7-customer.pdf'', d))"
    by (auto simp add: emptyOrder_simps absent_simps str_append imageFails_testEnv)
  from E [rule_format, OF testEnv_reliable]
  obtain y' d' ts where row: "drawTableRow ?e (config ?e) ?order 60 False [] = Inr (y', d')"
    and t: "textsOf d' = ts"
    and l: "list_all2 (\<lambda>c t. \<exists>dd. t = finalText ?e dd (?g c) (Some (width c - 4))) columns ts"
    by auto
  have cells: "map ?g columns =
      [str ''ORD-7'', str ''N/A'', str ''N/A'', str ''N/A'', str ''N/A'', str ''N/A'',
       str ''N/A'']"
    by (simp add: columns_def emptyOrder_def ofString_def truncateCell_def cleanCell_def
        trim_def displayable_def isWhiteSpace_def str_def)
  have "ts = map ?g columns"
  proof (rule texts_fit [OF l])
    fix c assume c: "c \<in> set columns"
    then have "?g c \<in> set (map ?g columns)"
      by (rule imageI [of c "set columns" ?g, unfolded set_map [symmetric]])
    then have "length (?g c) \<le> 5"
      unfolding cells by (auto simp: str_def)
    moreover from c have "(5::int) \<le> \<lfloor>(width c - 4) / 2\<rfloor>"
      by (auto simp: columns_def le_floor_iff)
    then have "(5::nat) \<le> nat \<lfloor>(width c - 4) / 2\<rfloor>"
      by linarith
    ultimately show "length (?g c) \<le> nat \<lfloor>(width c - 4) / 2\<rfloor>"
      by simp
  qed
  with row t cells have "\<exists>y' d'.
        drawTableRow ?e (config ?e) ?order 60 False [] = Inr (y', d') \<and>
        textsOf d' =
          [str ''ORD-7'', str ''N/A'', str ''N/A'', str ''N/A'', str ''N/A'', str ''N/A'',
           str ''N/A'']"
    by simp
  with first show ?thesis by simp
qed

end
